theory Spec2Isabelle
  imports Main "HOL-Library.Word"
begin

unbundle bit_operations_syntax

section \<open>JavaScript values used by CryptoString\<close>

text \<open>
  A JavaScript string is a sequence of 16-bit code units; \<open>length\<close>, \<open>charCodeAt\<close>,
  \<open>split('')\<close> and \<open>slice\<close> all count code units. String literals of the source are
  ASCII and are written with \<open>js\<close>.
\<close>

type_synonym js_string = "16 word list"

definition js :: "string \<Rightarrow> js_string" where
  "js s = map of_char s"

text \<open>
  Errors are values. \<open>Error m\<close> is \<open>new Error(m)\<close> of the source; the other constructors
  are the exceptions the platform raises (\<open>btoa\<close>/\<open>atob\<close>, the URI functions, typed arrays,
  \<open>crypto.getRandomValues\<close>, \<open>localStorage\<close>, \<open>JSON.parse\<close>, a property read on
  \<open>null\<close>). Their \<open>message\<close> is engine specific and is represented by the error's name.
\<close>

datatype error =
    Error string
  | InvalidCharacterError
  | URIError
  | RangeError
  | QuotaExceededError
  | SecurityError
  | SyntaxError
  | TypeError

fun error_message :: "error \<Rightarrow> string" where
  "error_message (Error m) = m"
| "error_message InvalidCharacterError = ''InvalidCharacterError''"
| "error_message URIError = ''URIError''"
| "error_message RangeError = ''RangeError''"
| "error_message QuotaExceededError = ''QuotaExceededError''"
| "error_message SecurityError = ''SecurityError''"
| "error_message SyntaxError = ''SyntaxError''"
| "error_message TypeError = ''TypeError''"

text \<open>
  \<open>String.fromCharCode(n)\<close> keeps \<open>n\<close> modulo \<open>2^16\<close> (ToUint16), which is what
  \<open>word_of_int\<close> does.
\<close>

definition fromCharCode :: "int \<Rightarrow> 16 word" where
  "fromCharCode n = word_of_int n"

text \<open>
  \<open>i % n\<close> on non-negative integers is \<open>NaN\<close> (here \<open>None\<close>) when \<open>n = 0\<close>.
  \<open>s.charCodeAt(p)\<close> reads position 0 when \<open>p\<close> is \<open>NaN\<close> and is \<open>NaN\<close> out of range.
  A bitwise operator reads \<open>NaN\<close> as 0 (ToInt32); every other operand of \<open>^\<close> in this
  program is a code unit or a loop index below the length of a string, for which ToInt32
  is the identity, so \<open>^\<close> is \<open>XOR\<close> on \<open>nat\<close>.
\<close>

definition rem_index :: "nat \<Rightarrow> nat \<Rightarrow> nat option" where
  "rem_index i n = (if n = 0 then None else Some (i mod n))"

definition charCodeAt :: "js_string \<Rightarrow> nat option \<Rightarrow> nat option" where
  "charCodeAt s p =
     (let k = (case p of None \<Rightarrow> 0 | Some k \<Rightarrow> k)
      in if k < length s then Some (unat (s ! k)) else None)"

definition to_int32 :: "nat option \<Rightarrow> nat" where
  "to_int32 v = (case v of None \<Rightarrow> 0 | Some n \<Rightarrow> n)"

text \<open>
  The loop \<open>for (let i = ...; i < n; i++) { result += String.fromCharCode(body(i)) }\<close>
  that builds every cipher text, key and derived key of the source.
\<close>

function string_loop :: "nat \<Rightarrow> (nat \<Rightarrow> 16 word) \<Rightarrow> nat \<Rightarrow> js_string \<Rightarrow> js_string" where
  "string_loop n body i result =
     (if i < n then string_loop n body (Suc i) (result @ [body i]) else result)"
  by pat_completeness auto
termination
  by (relation "measure (\<lambda>(n, body, i, result). n - i)") auto

text \<open>JavaScript's \<open>%\<close> truncates towards zero: the result has the sign of the dividend.\<close>

definition js_rem :: "int \<Rightarrow> int \<Rightarrow> int" where
  "js_rem a b = sgn a * (\<bar>a\<bar> mod \<bar>b\<bar>)"

text \<open>
  White space and line terminators, as \<open>String.prototype.trim\<close> and \<open>parseInt\<close> strip
  them.
\<close>

definition is_white_space :: "16 word \<Rightarrow> bool" where
  "is_white_space c \<longleftrightarrow>
     c \<in> {0x9, 0xA, 0xB, 0xC, 0xD, 0x20, 0xA0, 0x1680, 0x2028, 0x2029, 0x202F, 0x205F,
          0x3000, 0xFEFF} \<or> (0x2000 \<le> c \<and> c \<le> 0x200A)"

definition trim :: "js_string \<Rightarrow> js_string" where
  "trim s = rev (dropWhile is_white_space (rev (dropWhile is_white_space s)))"

text \<open>\<open>!s || s.trim() === ''\<close>, the blank test of \<open>encrypt\<close> and \<open>decrypt\<close>.\<close>

definition blank :: "js_string \<Rightarrow> bool" where
  "blank s \<longleftrightarrow> s = [] \<or> trim s = []"

text \<open>
  \<open>parseInt(s, 36)\<close>: leading white space is skipped, one sign is read, then the longest
  run of digits \<open>0-9, a-z, A-Z\<close>; no digit gives \<open>NaN\<close>. (A radix of 36 strips no
  \<open>0x\<close> prefix.) The source only applies it to at most two characters, where the value
  is exact.
\<close>

definition digit36 :: "16 word \<Rightarrow> nat option" where
  "digit36 c =
     (let n = unat c in
      if 48 \<le> n \<and> n \<le> 57 then Some (n - 48)
      else if 97 \<le> n \<and> n \<le> 122 then Some (n - 87)
      else if 65 \<le> n \<and> n \<le> 90 then Some (n - 55)
      else None)"

definition digits36_value :: "js_string \<Rightarrow> nat" where
  "digits36_value z = foldl (\<lambda>acc c. acc * 36 + to_int32 (digit36 c)) 0 z"

definition parseInt36 :: "js_string \<Rightarrow> int option" where
  "parseInt36 s =
     (let t = dropWhile is_white_space s;
          negative = (t \<noteq> [] \<and> hd t = 0x2D);
          u = (if t \<noteq> [] \<and> (hd t = 0x2B \<or> hd t = 0x2D) then tl t else t);
          z = takeWhile (\<lambda>c. digit36 c \<noteq> None) u
      in if z = [] then None
         else Some (if negative then - int (digits36_value z) else int (digits36_value z)))"

section \<open>The platform: random source, clock, persistent store\<close>

text \<open>
  The state the program runs in. \<open>random_bytes\<close> are the bytes
  \<open>crypto.getRandomValues\<close> will deliver, in order, and \<open>random_used\<close> counts those
  already delivered; \<open>clock\<close> and \<open>clock_used\<close> do the same for \<open>Date.now()\<close>, and
  \<open>random_ids\<close> for the successive values of \<open>Math.random().toString(36).substr(2, 9)\<close>.
  \<open>local_storage\<close> is the content of \<open>localStorage\<close>; when \<open>storage_denied\<close> holds
  every access to it raises, when \<open>storage_full\<close> holds \<open>setItem\<close> raises.
\<close>

record world =
  random_bytes :: "nat \<Rightarrow> 8 word"
  random_used :: nat
  clock :: "nat \<Rightarrow> nat"
  clock_used :: nat
  random_ids :: "nat \<Rightarrow> js_string"
  random_ids_used :: nat
  local_storage :: "js_string \<rightharpoonup> js_string"
  storage_denied :: bool
  storage_full :: bool

text \<open>
  \<open>new Uint8Array(length)\<close> raises a RangeError on a negative length, and
  \<open>crypto.getRandomValues\<close> a QuotaExceededError on more than 65536 bytes. Lengths are
  integers here.
\<close>

definition getRandomValues :: "world \<Rightarrow> int \<Rightarrow> (error + 8 word list) \<times> world" where
  "getRandomValues w len =
     (if len < 0 then (Inl RangeError, w)
      else if 65536 < len then (Inl QuotaExceededError, w)
      else (Inr (map (random_bytes w) [random_used w ..< random_used w + nat len]),
            w\<lparr>random_used := random_used w + nat len\<rparr>))"

section \<open>encryption.ts: key generation and derivation\<close>

definition chars :: js_string where
  "chars = js ''ABCDEFGHIJKLMNOPQRSTUVWXYZabcdefghijklmnopqrstuvwxyz0123456789!@#$%^&*()_+-=[]{}|;:,.<>?''"

text \<open>\<open>generateKey(length = 32)\<close>; \<open>None\<close> is the omitted argument.\<close>

definition generateKey :: "world \<Rightarrow> int option \<Rightarrow> (error + js_string) \<times> world" where
  "generateKey w len_arg =
     (let len = (case len_arg of None \<Rightarrow> 32 | Some l \<Rightarrow> l)
      in case getRandomValues w len of
           (Inl e, w') \<Rightarrow> (Inl e, w')
         | (Inr randomArray, w') \<Rightarrow>
             (Inr (string_loop (nat len)
                     (\<lambda>i. chars ! (unat (randomArray ! i) mod length chars)) 0 []), w'))"

definition generateSalt :: "world \<Rightarrow> (error + js_string) \<times> world" where
  "generateSalt w = generateKey w (Some 16)"

text \<open>\<open>deriveKey(key, salt?)\<close>; \<open>!salt\<close> holds for an omitted and for an empty salt.\<close>

definition deriveKey :: "js_string \<Rightarrow> js_string option \<Rightarrow> js_string" where
  "deriveKey key salt =
     (case salt of
        None \<Rightarrow> key
      | Some s \<Rightarrow>
          if s = [] then key
          else string_loop (max (length key) 32)
                 (\<lambda>i. let keyChar = charCodeAt key (rem_index i (length key));
                          saltChar = charCodeAt s (rem_index i (length s));
                          mixedChar = (to_int32 keyChar XOR to_int32 saltChar XOR i) mod 256
                      in fromCharCode (int mixedChar)) 0 [])"

section \<open>encryption.ts: the Caesar cipher\<close>

text \<open>
  \<open>caesarEncrypt(text, shift)\<close>. The shift is an integer or \<open>NaN\<close> (\<open>None\<close>, which
  \<open>key.charCodeAt(0) % 26\<close> gives on an empty key); arithmetic with \<open>NaN\<close> is \<open>NaN\<close> and
  \<open>String.fromCharCode(NaN)\<close> is the code unit 0.
\<close>

definition caesar_char :: "int option \<Rightarrow> 16 word \<Rightarrow> 16 word" where
  "caesar_char shift char =
     (let code = int (unat char) in
      if code \<ge> 65 \<and> code \<le> 90 then
        (case shift of None \<Rightarrow> 0 | Some sh \<Rightarrow> fromCharCode (js_rem (code - 65 + sh) 26 + 65))
      else if code \<ge> 97 \<and> code \<le> 122 then
        (case shift of None \<Rightarrow> 0 | Some sh \<Rightarrow> fromCharCode (js_rem (code - 97 + sh) 26 + 97))
      else if code \<ge> 48 \<and> code \<le> 57 then
        (case shift of None \<Rightarrow> 0 | Some sh \<Rightarrow> fromCharCode (js_rem (code - 48 + sh) 10 + 48))
      else char)"

definition caesarEncrypt :: "js_string \<Rightarrow> int option \<Rightarrow> js_string" where
  "caesarEncrypt text shift = map (caesar_char shift) text"

definition caesarDecrypt :: "js_string \<Rightarrow> int option \<Rightarrow> js_string" where
  "caesarDecrypt text shift = caesarEncrypt text (map_option uminus shift)"

text \<open>
  The function \<open>caesarDecrypt(text, shift)\<close> that \<open>generateDecryptionCode\<close> writes into
  the script it returns for the caesar (and hybrid) algorithm.
\<close>

definition snippet_caesar_char :: "int option \<Rightarrow> 16 word \<Rightarrow> 16 word" where
  "snippet_caesar_char shift char =
     (let code = int (unat char) in
      if code \<ge> 65 \<and> code \<le> 90 then
        (case shift of None \<Rightarrow> 0
         | Some sh \<Rightarrow> fromCharCode (js_rem (code - 65 - sh + 26) 26 + 65))
      else if code \<ge> 97 \<and> code \<le> 122 then
        (case shift of None \<Rightarrow> 0
         | Some sh \<Rightarrow> fromCharCode (js_rem (code - 97 - sh + 26) 26 + 97))
      else if code \<ge> 48 \<and> code \<le> 57 then
        (case shift of None \<Rightarrow> 0
         | Some sh \<Rightarrow> fromCharCode (js_rem (code - 48 - sh + 10) 10 + 48))
      else char)"

definition snippet_caesarDecrypt :: "js_string \<Rightarrow> int option \<Rightarrow> js_string" where
  "snippet_caesarDecrypt text shift = map (snippet_caesar_char shift) text"

text \<open>\<open>parseInt(key.slice(0, 2), 36) % 26 || 13\<close>, the shift of the top-level API.\<close>

definition key_shift :: "js_string \<Rightarrow> int" where
  "key_shift key =
     (case parseInt36 (take 2 key) of
        None \<Rightarrow> 13
      | Some n \<Rightarrow> if js_rem n 26 = 0 then 13 else js_rem n 26)"

section \<open>The platform: \<open>btoa\<close> and \<open>atob\<close>\<close>

text \<open>
  \<open>btoa\<close> raises on a code unit above 255 and otherwise writes the bytes in base64:
  each group of three bytes as four sextets, a last group of one or two bytes as two or
  three sextets, then \<open>=\<close> up to a multiple of four characters.
\<close>

definition b64_char :: "nat \<Rightarrow> 16 word" where
  "b64_char n =
     (if n < 26 then of_nat (n + 65)
      else if n < 52 then of_nat (n + 71)
      else if n < 62 then of_nat (n - 4)
      else if n = 62 then 0x2B
      else 0x2F)"

fun b64_sextets :: "nat list \<Rightarrow> nat list" where
  "b64_sextets [] = []"
| "b64_sextets [a] = [a div 4, (a mod 4) * 16]"
| "b64_sextets [a, b] = [a div 4, (a mod 4) * 16 + b div 16, (b mod 16) * 4]"
| "b64_sextets (a # b # c # rest) =
     [a div 4, (a mod 4) * 16 + b div 16, (b mod 16) * 4 + c div 64, c mod 64]
     @ b64_sextets rest"

definition btoa :: "js_string \<Rightarrow> error + js_string" where
  "btoa s =
     (if \<exists>c \<in> set s. 255 < unat c then Inl InvalidCharacterError
      else Inr (map b64_char (b64_sextets (map unat s))
                @ replicate ((3 - length s mod 3) mod 3) 0x3D))"

text \<open>
  \<open>atob\<close> is the forgiving base64 decoding of the HTML standard: ASCII white space is
  removed; if the length is then a multiple of four, one or two trailing \<open>=\<close> are
  removed; a length of 1 modulo 4 or a character outside the base64 alphabet raises;
  the sextets are then read in groups of four, a last group of two or three giving one
  or two bytes.
\<close>

definition is_ascii_whitespace :: "16 word \<Rightarrow> bool" where
  "is_ascii_whitespace c \<longleftrightarrow> c \<in> {0x9, 0xA, 0xC, 0xD, 0x20}"

definition b64_index :: "16 word \<Rightarrow> nat option" where
  "b64_index c =
     (let n = unat c in
      if 65 \<le> n \<and> n \<le> 90 then Some (n - 65)
      else if 97 \<le> n \<and> n \<le> 122 then Some (n - 71)
      else if 48 \<le> n \<and> n \<le> 57 then Some (n + 4)
      else if n = 43 then Some 62
      else if n = 47 then Some 63
      else None)"

fun b64_bytes :: "nat list \<Rightarrow> nat list" where
  "b64_bytes (p # q # r # s # rest) =
     [p * 4 + q div 16, (q mod 16) * 16 + r div 4, (r mod 4) * 64 + s] @ b64_bytes rest"
| "b64_bytes [p, q, r] = [p * 4 + q div 16, (q mod 16) * 16 + r div 4]"
| "b64_bytes [p, q] = [p * 4 + q div 16]"
| "b64_bytes _ = []"

definition strip_padding :: "js_string \<Rightarrow> js_string" where
  "strip_padding d =
     (if length d mod 4 = 0 then
        (case rev d of
           a # b # r \<Rightarrow> if a = 0x3D \<and> b = 0x3D then rev r
                        else if a = 0x3D then rev (b # r) else d
         | _ \<Rightarrow> d)
      else d)"

definition atob :: "js_string \<Rightarrow> error + js_string" where
  "atob s =
     (let d = strip_padding (filter (\<lambda>c. \<not> is_ascii_whitespace c) s)
      in if length d mod 4 = 1 then Inl InvalidCharacterError
         else if \<exists>c \<in> set d. b64_index c = None then Inl InvalidCharacterError
         else Inr (map (\<lambda>b. fromCharCode (int b)) (b64_bytes (List.map_filter b64_index d))))"

section \<open>The platform: UTF-8 through the URI functions\<close>

text \<open>
  \<open>unescape(encodeURIComponent(text))\<close> is the UTF-8 encoding of \<open>text\<close>, one code unit
  per byte; \<open>encodeURIComponent\<close> raises a URIError on a surrogate that is not part of a
  pair.
\<close>

fun utf8_encode :: "js_string \<Rightarrow> error + js_string" where
  "utf8_encode [] = Inr []"
| "utf8_encode (c # rest) =
     (let n = unat c in
      if n < 0x80 then
        (case utf8_encode rest of Inl e \<Rightarrow> Inl e | Inr bs \<Rightarrow> Inr (of_nat n # bs))
      else if n < 0x800 then
        (case utf8_encode rest of Inl e \<Rightarrow> Inl e
         | Inr bs \<Rightarrow> Inr (of_nat (0xC0 + n div 64) # of_nat (0x80 + n mod 64) # bs))
      else if 0xD800 \<le> n \<and> n \<le> 0xDBFF then
        (case rest of
           [] \<Rightarrow> Inl URIError
         | d # rest' \<Rightarrow>
             let m = unat d in
             if 0xDC00 \<le> m \<and> m \<le> 0xDFFF then
               (let cp = 0x10000 + (n - 0xD800) * 0x400 + (m - 0xDC00) in
                case utf8_encode rest' of Inl e \<Rightarrow> Inl e
                | Inr bs \<Rightarrow>
                    Inr (of_nat (0xF0 + cp div 262144) # of_nat (0x80 + cp div 4096 mod 64)
                         # of_nat (0x80 + cp div 64 mod 64) # of_nat (0x80 + cp mod 64) # bs))
             else Inl URIError)
      else if 0xDC00 \<le> n \<and> n \<le> 0xDFFF then Inl URIError
      else
        (case utf8_encode rest of Inl e \<Rightarrow> Inl e
         | Inr bs \<Rightarrow>
             Inr (of_nat (0xE0 + n div 4096) # of_nat (0x80 + n div 64 mod 64)
                  # of_nat (0x80 + n mod 64) # bs)))"

text \<open>
  \<open>decodeURIComponent(escape(s))\<close>, for \<open>s\<close> a string of bytes as \<open>atob\<close> returns it, is
  the strict UTF-8 decoding of \<open>s\<close>: \<open>escape\<close> writes every byte that is not an ASCII
  letter, digit or one of \<open>@*_+-./\<close> as \<open>%XX\<close>, and \<open>decodeURIComponent\<close> raises a
  URIError on an escape sequence that is not the UTF-8 form of a code point (overlong
  forms, surrogates and values above \<open>0x10FFFF\<close> included).
\<close>

definition continuation :: "16 word \<Rightarrow> bool" where
  "continuation b \<longleftrightarrow> 0x80 \<le> unat b \<and> unat b \<le> 0xBF"

fun utf8_decode :: "js_string \<Rightarrow> error + js_string" where
  "utf8_decode [] = Inr []"
| "utf8_decode (b0 # rest) =
     (let n0 = unat b0 in
      if n0 < 0x80 then
        (case utf8_decode rest of Inl e \<Rightarrow> Inl e | Inr cs \<Rightarrow> Inr (b0 # cs))
      else if 0xC2 \<le> n0 \<and> n0 \<le> 0xDF then
        (case rest of
           b1 # rest1 \<Rightarrow>
             if continuation b1 then
               (case utf8_decode rest1 of Inl e \<Rightarrow> Inl e
                | Inr cs \<Rightarrow> Inr (of_nat ((n0 - 0xC0) * 64 + (unat b1 - 0x80)) # cs))
             else Inl URIError
         | _ \<Rightarrow> Inl URIError)
      else if 0xE0 \<le> n0 \<and> n0 \<le> 0xEF then
        (case rest of
           b1 # b2 # rest2 \<Rightarrow>
             let cp = (n0 - 0xE0) * 4096 + (unat b1 - 0x80) * 64 + (unat b2 - 0x80) in
             if continuation b1 \<and> continuation b2 \<and> 0x800 \<le> cp
                \<and> \<not> (0xD800 \<le> cp \<and> cp \<le> 0xDFFF) then
               (case utf8_decode rest2 of Inl e \<Rightarrow> Inl e | Inr cs \<Rightarrow> Inr (of_nat cp # cs))
             else Inl URIError
         | _ \<Rightarrow> Inl URIError)
      else if 0xF0 \<le> n0 \<and> n0 \<le> 0xF4 then
        (case rest of
           b1 # b2 # b3 # rest3 \<Rightarrow>
             let cp = (n0 - 0xF0) * 262144 + (unat b1 - 0x80) * 4096
                      + (unat b2 - 0x80) * 64 + (unat b3 - 0x80) in
             if continuation b1 \<and> continuation b2 \<and> continuation b3
                \<and> 0x10000 \<le> cp \<and> cp \<le> 0x10FFFF then
               (case utf8_decode rest3 of Inl e \<Rightarrow> Inl e
                | Inr cs \<Rightarrow>
                    Inr (of_nat (0xD800 + (cp - 0x10000) div 0x400)
                         # of_nat (0xDC00 + (cp - 0x10000) mod 0x400) # cs))
             else Inl URIError
         | _ \<Rightarrow> Inl URIError)
      else Inl URIError)"

section \<open>encryption.ts: the XOR stream, base64 and hybrid ciphers\<close>

text \<open>
  The loop of \<open>xorEncrypt\<close>, \<open>xorDecrypt\<close>, \<open>aesEncrypt\<close> and \<open>aesDecrypt\<close> (and of
  \<open>encryptData\<close> and \<open>decryptData\<close> in keyStorage.ts), which is the same in all six:
  character \<open>i\<close> of the result is \<open>text[i] ^ key[i % key.length] ^ (i % 256)\<close>.
\<close>

definition xor_loop :: "js_string \<Rightarrow> js_string \<Rightarrow> js_string" where
  "xor_loop text key =
     string_loop (length text)
       (\<lambda>i. let textChar = charCodeAt text (Some i);
                keyChar = charCodeAt key (rem_index i (length key));
                xorChar = to_int32 textChar XOR to_int32 keyChar XOR (i mod 256)
            in fromCharCode (int xorChar)) 0 []"

definition aesEncrypt :: "js_string \<Rightarrow> js_string \<Rightarrow> js_string option \<Rightarrow> error + js_string" where
  "aesEncrypt text key salt = btoa (xor_loop text (deriveKey key salt))"

definition aesDecrypt :: "js_string \<Rightarrow> js_string \<Rightarrow> js_string option \<Rightarrow> error + js_string" where
  "aesDecrypt encryptedText key salt =
     (let derivedKey = deriveKey key salt in
      case atob encryptedText of
        Inl e \<Rightarrow> Inl (Error ''Invalid encrypted text or key for AES decryption'')
      | Inr decoded \<Rightarrow> Inr (xor_loop decoded derivedKey))"

definition xorEncrypt :: "js_string \<Rightarrow> js_string \<Rightarrow> error + js_string" where
  "xorEncrypt text key = btoa (xor_loop text key)"

definition xorDecrypt :: "js_string \<Rightarrow> js_string \<Rightarrow> error + js_string" where
  "xorDecrypt encryptedText key =
     (case atob encryptedText of
        Inl e \<Rightarrow> Inl (Error ''Invalid encrypted text or key for XOR decryption'')
      | Inr decoded \<Rightarrow> Inr (xor_loop decoded key))"

definition base64Encrypt :: "js_string \<Rightarrow> error + js_string" where
  "base64Encrypt text =
     (case utf8_encode text of
        Inl e \<Rightarrow> Inl (Error ''Failed to encode text to Base64'')
      | Inr bytes \<Rightarrow>
          (case btoa bytes of
             Inl e \<Rightarrow> Inl (Error ''Failed to encode text to Base64'')
           | Inr encoded \<Rightarrow> Inr encoded))"

definition base64Decrypt :: "js_string \<Rightarrow> error + js_string" where
  "base64Decrypt encodedText =
     (case atob encodedText of
        Inl e \<Rightarrow> Inl (Error ''Invalid Base64 encoded text'')
      | Inr bytes \<Rightarrow>
          (case utf8_decode bytes of
             Inl e \<Rightarrow> Inl (Error ''Invalid Base64 encoded text'')
           | Inr text \<Rightarrow> Inr text))"

text \<open>\<open>key.charCodeAt(0) % 26\<close>, the shift of the hybrid cipher.\<close>

definition hybrid_shift :: "js_string \<Rightarrow> int option" where
  "hybrid_shift key = map_option (\<lambda>c. js_rem (int c) 26) (charCodeAt key (Some 0))"

definition hybridEncrypt :: "js_string \<Rightarrow> js_string \<Rightarrow> js_string option \<Rightarrow> error + js_string" where
  "hybridEncrypt text key salt =
     (let shift = hybrid_shift key;
          caesarResult = caesarEncrypt text shift
      in case xorEncrypt caesarResult key of
           Inl e \<Rightarrow> Inl (Error ''Hybrid encryption failed'')
         | Inr xorResult \<Rightarrow>
             (case atob xorResult of
                Inl e \<Rightarrow> Inl (Error ''Hybrid encryption failed'')
              | Inr xorDecoded \<Rightarrow>
                  (case aesEncrypt xorDecoded key salt of
                     Inl e \<Rightarrow> Inl (Error ''Hybrid encryption failed'')
                   | Inr encrypted \<Rightarrow> Inr encrypted)))"

definition hybridDecrypt :: "js_string \<Rightarrow> js_string \<Rightarrow> js_string option \<Rightarrow> error + js_string" where
  "hybridDecrypt encryptedText key salt =
     (case aesDecrypt encryptedText key salt of
        Inl e \<Rightarrow> Inl (Error ''Hybrid decryption failed - invalid encrypted text or key'')
      | Inr aesResult \<Rightarrow>
          (case btoa aesResult of
             Inl e \<Rightarrow> Inl (Error ''Hybrid decryption failed - invalid encrypted text or key'')
           | Inr reencoded \<Rightarrow>
               (case xorDecrypt reencoded key of
                  Inl e \<Rightarrow> Inl (Error ''Hybrid decryption failed - invalid encrypted text or key'')
                | Inr xorResult \<Rightarrow> Inr (caesarDecrypt xorResult (hybrid_shift key)))))"

section \<open>encryption.ts: \<open>encrypt\<close> and \<open>decrypt\<close>\<close>

text \<open>
  The fields of \<open>EncryptionConfig\<close> that \<open>encrypt\<close> reads. The algorithm is a string at
  run time; an omitted \<open>keyLength\<close> is \<open>None\<close>, an omitted \<open>useSalt\<close> is \<open>False\<close>.
\<close>

record EncryptionConfig =
  algorithm :: js_string
  keyLength :: "int option"
  useSalt :: bool

record EncryptionResult =
  encrypted :: js_string
  key :: js_string
  result_algorithm :: js_string
  timestamp :: nat
  salt :: "js_string option"

record DecryptionResult =
  decrypted :: js_string
  success :: bool
  error :: "string option"

definition Date_now :: "world \<Rightarrow> nat \<times> world" where
  "Date_now w = (clock w (clock_used w), w\<lparr>clock_used := Suc (clock_used w)\<rparr>)"

text \<open>
  The \<open>switch\<close> of \<open>encrypt\<close>, the algorithm-specific encryption of a text under a given
  key and salt.
\<close>

definition encrypt_switch :: "js_string \<Rightarrow> js_string \<Rightarrow> js_string \<Rightarrow> js_string option \<Rightarrow> error + js_string" where
  "encrypt_switch alg text k s =
     (if alg = js ''aes'' then aesEncrypt text k s
      else if alg = js ''caesar'' then Inr (caesarEncrypt text (Some (key_shift k)))
      else if alg = js ''xor'' then xorEncrypt text k
      else if alg = js ''base64'' then base64Encrypt text
      else if alg = js ''hybrid'' then hybridEncrypt text k s
      else Inl (Error ''Unsupported encryption algorithm''))"

definition encrypt :: "world \<Rightarrow> js_string \<Rightarrow> EncryptionConfig \<Rightarrow> (error + EncryptionResult) \<times> world" where
  "encrypt w text config =
     (if blank text then (Inl (Error ''Text to encrypt cannot be empty''), w)
      else
        case generateKey w (if keyLength config = None \<or> keyLength config = Some 0 then None
                            else keyLength config) of
          (Inl e, w1) \<Rightarrow> (Inl e, w1)
        | (Inr k, w1) \<Rightarrow>
            (case (if useSalt config
                   then (case generateSalt w1 of
                           (Inl e, w2) \<Rightarrow> (Inl e, w2)
                         | (Inr s, w2) \<Rightarrow> (Inr (Some s), w2))
                   else (Inr None, w1)) of
               (Inl e, w2) \<Rightarrow> (Inl e, w2)
             | (Inr s, w2) \<Rightarrow>
                 (case encrypt_switch (algorithm config) text k s of
                    Inl e \<Rightarrow> (Inl (Error (''Encryption failed: '' @ error_message e)), w2)
                  | Inr enc \<Rightarrow>
                      (let (t, w3) = Date_now w2
                       in (Inr \<lparr>encrypted = enc, key = k, result_algorithm = algorithm config,
                                timestamp = t, salt = s\<rparr>, w3)))))"

text \<open>The \<open>switch\<close> of \<open>decrypt\<close>, the body of its \<open>try\<close>.\<close>

definition decrypt_switch :: "js_string \<Rightarrow> js_string \<Rightarrow> js_string \<Rightarrow> js_string option \<Rightarrow> error + js_string" where
  "decrypt_switch alg encryptedText k s =
     (if alg = js ''aes'' then aesDecrypt encryptedText k s
      else if alg = js ''caesar'' then Inr (caesarDecrypt encryptedText (Some (key_shift k)))
      else if alg = js ''xor'' then xorDecrypt encryptedText k
      else if alg = js ''base64'' then base64Decrypt encryptedText
      else if alg = js ''hybrid'' then hybridDecrypt encryptedText k s
      else Inl (Error ''Unsupported decryption algorithm''))"

definition decrypt :: "js_string \<Rightarrow> js_string \<Rightarrow> js_string \<Rightarrow> js_string option \<Rightarrow> DecryptionResult" where
  "decrypt encryptedText k alg s =
     (if blank encryptedText then
        \<lparr>decrypted = [], success = False, error = Some ''Encrypted text cannot be empty''\<rparr>
      else if blank k then
        \<lparr>decrypted = [], success = False, error = Some ''Decryption key cannot be empty''\<rparr>
      else
        case decrypt_switch alg encryptedText k s of
          Inr d \<Rightarrow> \<lparr>decrypted = d, success = True, error = None\<rparr>
        | Inl e \<Rightarrow> \<lparr>decrypted = [], success = False, error = Some (error_message e)\<rparr>)"

text \<open>
  The configuration that \<open>handleEncrypt\<close> of the encryption form builds from the form's
  state before it calls \<open>encrypt\<close>.
\<close>

definition handleEncrypt_config :: "js_string \<Rightarrow> int \<Rightarrow> bool \<Rightarrow> EncryptionConfig" where
  "handleEncrypt_config alg len salted =
     \<lparr>algorithm = alg,
      keyLength = Some (max 16 (min 64 len)),
      useSalt = (salted \<and> alg \<noteq> js ''caesar'' \<and> alg \<noteq> js ''base64'')\<rparr>"

section \<open>The platform: JSON values and \<open>localStorage\<close>\<close>

text \<open>
  The values \<open>JSON.parse\<close> returns. Numbers are integers here (identifiers and
  time stamps); an object is the list of its own properties in their order.
\<close>

datatype json =
    JNull
  | JBool bool
  | JNum int
  | JStr js_string
  | JArr "json list"
  | JObj "(js_string \<times> json) list"

text \<open>
  \<open>JSON.parse\<close> and \<open>JSON.stringify\<close> are parameters of the model: what is proved holds
  for every pair of functions. \<open>JSON.parse\<close> raises a SyntaxError on a text that is not
  JSON.
\<close>

record platform =
  JSON_parse :: "js_string \<Rightarrow> error + json"
  JSON_stringify :: "json \<Rightarrow> js_string"

text \<open>
  \<open>try { body } catch (e) { handler }\<close>: the state reached when \<open>body\<close> raised is the
  one the handler starts from.
\<close>

definition try_catch ::
  "(error + 'a) \<times> world \<Rightarrow> (error \<Rightarrow> world \<Rightarrow> (error + 'a) \<times> world) \<Rightarrow> (error + 'a) \<times> world" where
  "try_catch body handler =
     (case body of (Inl e, w) \<Rightarrow> handler e w | (Inr v, w) \<Rightarrow> (Inr v, w))"

definition getItem :: "world \<Rightarrow> js_string \<Rightarrow> error + js_string option" where
  "getItem w name = (if storage_denied w then Inl SecurityError else Inr (local_storage w name))"

definition setItem :: "world \<Rightarrow> js_string \<Rightarrow> js_string \<Rightarrow> error + world" where
  "setItem w name v =
     (if storage_denied w then Inl SecurityError
      else if storage_full w then Inl QuotaExceededError
      else Inr (w\<lparr>local_storage := (local_storage w)(name \<mapsto> v)\<rparr>))"

text \<open>
  A property read \<open>v.name\<close> on a value that is not \<open>null\<close>: \<open>None\<close> is \<open>undefined\<close>.
  The names this program reads (\<open>id\<close>, \<open>name\<close>, \<open>key\<close>, \<open>algorithm\<close>, \<open>created\<close>,
  \<open>used\<close>) are properties of no array, string, number or boolean. On \<open>null\<close> a
  property read raises a TypeError, which the callers below write out.
\<close>

definition get_prop :: "json \<Rightarrow> js_string \<Rightarrow> json option" where
  "get_prop v name = (case v of JObj ps \<Rightarrow> map_of ps name | _ \<Rightarrow> None)"

definition truthy :: "json \<Rightarrow> bool" where
  "truthy v =
     (case v of JNull \<Rightarrow> False | JBool b \<Rightarrow> b | JNum n \<Rightarrow> n \<noteq> 0 | JStr s \<Rightarrow> s \<noteq> []
      | JArr _ \<Rightarrow> True | JObj _ \<Rightarrow> True)"

text \<open>\<open>!v\<close> for a property that may be \<open>undefined\<close>.\<close>

definition falsy :: "json option \<Rightarrow> bool" where
  "falsy v = (case v of None \<Rightarrow> True | Some j \<Rightarrow> \<not> truthy j)"

text \<open>\<open>typeof v === 'string'\<close>.\<close>

definition is_string :: "json option \<Rightarrow> bool" where
  "is_string v = (case v of Some (JStr _) \<Rightarrow> True | _ \<Rightarrow> False)"

text \<open>
  \<open>a === b\<close>: primitives are compared by value; two objects or arrays are equal only
  when they are the same object, which a stored key and an argument never are.
\<close>

definition strict_equal :: "json option \<Rightarrow> json option \<Rightarrow> bool" where
  "strict_equal a b =
     (case (a, b) of
        (None, None) \<Rightarrow> True
      | (Some JNull, Some JNull) \<Rightarrow> True
      | (Some (JBool x), Some (JBool y)) \<Rightarrow> x = y
      | (Some (JNum x), Some (JNum y)) \<Rightarrow> x = y
      | (Some (JStr x), Some (JStr y)) \<Rightarrow> x = y
      | _ \<Rightarrow> False)"

text \<open>
  \<open>{ ...key, name: v }\<close>: the own properties of \<open>key\<close>, with \<open>name\<close> set to \<open>v\<close> in
  place when \<open>key\<close> has it and added last otherwise. The program spreads objects only.
\<close>

fun set_prop :: "js_string \<Rightarrow> json \<Rightarrow> (js_string \<times> json) list \<Rightarrow> (js_string \<times> json) list" where
  "set_prop name v [] = [(name, v)]"
| "set_prop name v ((n, x) # ps) =
     (if n = name then (name, v) # ps else (n, x) # set_prop name v ps)"

definition own_props :: "json \<Rightarrow> (js_string \<times> json) list" where
  "own_props v = (case v of JObj ps \<Rightarrow> ps | _ \<Rightarrow> [])"

text \<open>\<open>array.findIndex(p)\<close>; \<open>None\<close> is \<open>-1\<close>.\<close>

fun findIndex :: "('a \<Rightarrow> bool) \<Rightarrow> 'a list \<Rightarrow> nat option" where
  "findIndex p [] = None"
| "findIndex p (x # xs) = (if p x then Some 0 else map_option Suc (findIndex p xs))"

text \<open>\<open>n.toString()\<close> for a non-negative integer below \<open>10^21\<close>: its decimal digits.\<close>

function decimal :: "nat \<Rightarrow> js_string" where
  "decimal n = (if n < 10 then [of_nat (48 + n)] else decimal (n div 10) @ [of_nat (48 + n mod 10)])"
  by pat_completeness auto
termination
  by (relation "measure (\<lambda>n. n)") auto

text \<open>
  The conversion to a string that a template literal applies. An object that has a
  property \<open>toString\<close> of its own (which is not a function, coming from JSON) has no
  primitive value: the conversion raises a TypeError. An array joins its elements with
  commas, \<open>null\<close> elements as the empty string.
\<close>

fun to_string :: "json \<Rightarrow> error + js_string" where
  "to_string JNull = Inr (js ''null'')"
| "to_string (JBool b) = Inr (if b then js ''true'' else js ''false'')"
| "to_string (JNum n) = Inr (if n < 0 then 0x2D # decimal (nat (- n)) else decimal (nat n))"
| "to_string (JStr s) = Inr s"
| "to_string (JObj ps) =
     (if map_of ps (js ''toString'') = None then Inr (js ''[object Object]'') else Inl TypeError)"
| "to_string (JArr []) = Inr []"
| "to_string (JArr [x]) = (if x = JNull then Inr [] else to_string x)"
| "to_string (JArr (x # y # xs)) =
     (case (if x = JNull then Inr [] else to_string x) of
        Inl e \<Rightarrow> Inl e
      | Inr a \<Rightarrow> (case to_string (JArr (y # xs)) of Inl e \<Rightarrow> Inl e | Inr b \<Rightarrow> Inr (a @ 0x2C # b)))"

section \<open>keyStorage.ts: the vault codec\<close>

definition STORAGE_KEY :: js_string where
  "STORAGE_KEY = js ''cryptostring_keys''"

definition ENCRYPTION_KEY :: js_string where
  "ENCRYPTION_KEY = js ''cryptostring_master_key''"

definition master_chars :: js_string where
  "master_chars = js ''ABCDEFGHIJKLMNOPQRSTUVWXYZabcdefghijklmnopqrstuvwxyz0123456789!@#$%^&*()''"

definition generateMasterKey :: "world \<Rightarrow> (error + js_string) \<times> world" where
  "generateMasterKey w =
     (case getRandomValues w 32 of
        (Inl e, w') \<Rightarrow> (Inl e, w')
      | (Inr randomArray, w') \<Rightarrow>
          (Inr (string_loop 32
                  (\<lambda>i. master_chars ! (unat (randomArray ! i) mod length master_chars)) 0 []), w'))"

definition getMasterKey :: "world \<Rightarrow> (error + js_string) \<times> world" where
  "getMasterKey w =
     (case getItem w ENCRYPTION_KEY of
        Inl e \<Rightarrow> (Inl e, w)
      | Inr stored \<Rightarrow>
          (case stored of
             Some masterKey \<Rightarrow>
               if masterKey \<noteq> [] then (Inr masterKey, w)
               else (case generateMasterKey w of
                       (Inl e, w1) \<Rightarrow> (Inl e, w1)
                     | (Inr masterKey', w1) \<Rightarrow>
                         (case setItem w1 ENCRYPTION_KEY masterKey' of
                            Inl e \<Rightarrow> (Inl e, w1)
                          | Inr w2 \<Rightarrow> (Inr masterKey', w2)))
           | None \<Rightarrow>
               (case generateMasterKey w of
                  (Inl e, w1) \<Rightarrow> (Inl e, w1)
                | (Inr masterKey', w1) \<Rightarrow>
                    (case setItem w1 ENCRYPTION_KEY masterKey' of
                       Inl e \<Rightarrow> (Inl e, w1)
                     | Inr w2 \<Rightarrow> (Inr masterKey', w2)))))"

text \<open>A pure platform call that may raise, run in a world.\<close>

definition in_world :: "world \<Rightarrow> error + 'a \<Rightarrow> (error + 'a) \<times> world" where
  "in_world w r = (r, w)"

definition encryptData :: "world \<Rightarrow> js_string \<Rightarrow> (error + js_string) \<times> world" where
  "encryptData w data =
     try_catch
       (case getMasterKey w of
          (Inl e, w1) \<Rightarrow> (Inl e, w1)
        | (Inr masterKey, w1) \<Rightarrow> in_world w1 (btoa (xor_loop data masterKey)))
       (\<lambda>e w1. in_world w1 (btoa data))"

definition decryptData :: "world \<Rightarrow> js_string \<Rightarrow> (error + js_string) \<times> world" where
  "decryptData w encryptedData =
     try_catch
       (case getMasterKey w of
          (Inl e, w1) \<Rightarrow> (Inl e, w1)
        | (Inr masterKey, w1) \<Rightarrow>
            (case atob encryptedData of
               Inl e \<Rightarrow> (Inl e, w1)
             | Inr decoded \<Rightarrow> (Inr (xor_loop decoded masterKey), w1)))
       (\<lambda>e w1. try_catch (in_world w1 (atob encryptedData)) (\<lambda>e w2. (Inr (js ''[]''), w2)))"

section \<open>keyStorage.ts: the key vault\<close>

text \<open>The test of the \<open>filter\<close> in \<open>getAllKeys\<close>.\<close>

definition has_key_shape :: "json \<Rightarrow> bool" where
  "has_key_shape k \<longleftrightarrow>
     truthy k \<and> is_string (get_prop k (js ''id'')) \<and> is_string (get_prop k (js ''name''))
     \<and> is_string (get_prop k (js ''key'')) \<and> is_string (get_prop k (js ''algorithm''))"

definition getAllKeys :: "platform \<Rightarrow> world \<Rightarrow> (error + json list) \<times> world" where
  "getAllKeys P w =
     try_catch
       (case getItem w STORAGE_KEY of
          Inl e \<Rightarrow> (Inl e, w)
        | Inr stored \<Rightarrow>
            (case stored of
               None \<Rightarrow> (Inr [], w)
             | Some enc \<Rightarrow>
                 if enc = [] then (Inr [], w)
                 else (case decryptData w enc of
                         (Inl e, w1) \<Rightarrow> (Inl e, w1)
                       | (Inr plain, w1) \<Rightarrow>
                           (case JSON_parse P plain of
                              Inl e \<Rightarrow> (Inl e, w1)
                            | Inr (JArr keys) \<Rightarrow> (Inr (filter has_key_shape keys), w1)
                            | Inr _ \<Rightarrow> (Inr [], w1)))))
       (\<lambda>e w1. (Inr [], w1))"

text \<open>
  \<open>saveKey(key)\<close>. The argument is any value at run time. \<open>key.created || Date.now()\<close>
  reads the clock only when \<open>key.created\<close> is falsy.
\<close>

definition or_now :: "json option \<Rightarrow> world \<Rightarrow> json \<times> world" where
  "or_now v w =
     (if falsy v then (let (t, w') = Date_now w in (JNum (int t), w'))
      else (case v of Some j \<Rightarrow> (j, w) | None \<Rightarrow> (JNull, w)))"

text \<open>
  The \<open>if (existingIndex >= 0) ... else ...\<close> of \<open>saveKey\<close>: the list after the
  assignment or the \<open>push\<close>, and the world after the clock was read.
\<close>

definition upsert :: "json \<Rightarrow> json list \<Rightarrow> world \<Rightarrow> json list \<times> world" where
  "upsert k keys w =
     (case findIndex (\<lambda>x. strict_equal (get_prop x (js ''id'')) (get_prop k (js ''id''))) keys of
        Some existingIndex \<Rightarrow>
          (let (t, w1) = Date_now w
           in (keys[existingIndex := JObj (set_prop (js ''used'') (JNum (int t)) (own_props k))], w1))
      | None \<Rightarrow>
          (let (c, w1) = or_now (get_prop k (js ''created'')) w;
               (u, w2) = or_now (get_prop k (js ''used'')) w1
           in (keys @ [JObj (set_prop (js ''used'') u
                              (set_prop (js ''created'') c (own_props k)))], w2)))"

definition saveKey :: "platform \<Rightarrow> world \<Rightarrow> json \<Rightarrow> (error + bool) \<times> world" where
  "saveKey P w k =
     try_catch
       (if k = JNull then (Inl TypeError, w)
        else if falsy (get_prop k (js ''id'')) \<or> falsy (get_prop k (js ''name''))
                \<or> falsy (get_prop k (js ''key'')) \<or> falsy (get_prop k (js ''algorithm''))
        then (Inl (Error ''Invalid key data''), w)
        else
          case getAllKeys P w of
            (Inl e, w1) \<Rightarrow> (Inl e, w1)
          | (Inr keys, w1) \<Rightarrow>
              (let (keys', w2) = upsert k keys w1
               in case encryptData w2 (JSON_stringify P (JArr keys')) of
                    (Inl e, w3) \<Rightarrow> (Inl e, w3)
                  | (Inr enc, w3) \<Rightarrow>
                      (case setItem w3 STORAGE_KEY enc of
                         Inl e \<Rightarrow> (Inl e, w3)
                       | Inr w4 \<Rightarrow> (Inr True, w4))))
       (\<lambda>e w1. (Inr False, w1))"

definition validateKeyStructure :: "json \<Rightarrow> bool" where
  "validateKeyStructure k \<longleftrightarrow>
     truthy k \<and> (case k of JObj _ \<Rightarrow> True | JArr _ \<Rightarrow> True | _ \<Rightarrow> False)
     \<and> (case (get_prop k (js ''name''), get_prop k (js ''key''), get_prop k (js ''algorithm'')) of
          (Some (JStr n), Some (JStr v), Some (JStr a)) \<Rightarrow>
            trim n \<noteq> [] \<and> trim v \<noteq> []
            \<and> a \<in> set [js ''aes'', js ''caesar'', js ''xor'', js ''base64'', js ''hybrid'']
        | _ \<Rightarrow> False)"

record ImportResult =
  import_success :: bool
  imported :: nat
  import_errors :: "js_string list"

text \<open>\<open>Math.random().toString(36).substr(2, 9)\<close>.\<close>

definition random_id :: "world \<Rightarrow> js_string \<times> world" where
  "random_id w = (random_ids w (random_ids_used w), w\<lparr>random_ids_used := Suc (random_ids_used w)\<rparr>)"

text \<open>
  \<open>`${prefix}${key.name || 'Unknown'}`\<close>, the message of a rejected element. The read
  \<open>key.name\<close> raises on \<open>null\<close>.
\<close>

definition name_message :: "string \<Rightarrow> json \<Rightarrow> error + js_string" where
  "name_message prefix k =
     (if k = JNull then Inl TypeError
      else if falsy (get_prop k (js ''name'')) then Inr (js prefix @ js ''Unknown'')
      else case get_prop k (js ''name'') of
             Some n \<Rightarrow> (case to_string n of Inl e \<Rightarrow> Inl e | Inr s \<Rightarrow> Inr (js prefix @ s))
           | None \<Rightarrow> Inr (js prefix @ js ''Unknown''))"

text \<open>
  The \<open>for (const key of importedKeys)\<close> loop of \<open>importKeys\<close>, from the elements still
  to visit, the count \<open>imported\<close> and the messages pushed so far. It returns the count
  and the messages; a raise leaves the loop with the messages pushed until then.
\<close>

fun import_loop ::
  "platform \<Rightarrow> json list \<Rightarrow> nat \<Rightarrow> js_string list \<Rightarrow> world
     \<Rightarrow> (error \<times> js_string list + nat \<times> js_string list) \<times> world" where
  "import_loop P [] n errs w = (Inr (n, errs), w)"
| "import_loop P (k # rest) n errs w =
     (if validateKeyStructure k then
        (let (t, w1) = Date_now w;
             (r, w2) = random_id w1;
             newKey = JObj (set_prop (js ''id'') (JStr (decimal t @ r)) (own_props k))
         in case saveKey P w2 newKey of
              (Inl e, w3) \<Rightarrow> (Inl (e, errs), w3)
            | (Inr True, w3) \<Rightarrow> import_loop P rest (Suc n) errs w3
            | (Inr False, w3) \<Rightarrow>
                (case name_message ''Failed to save key: '' k of
                   Inl e \<Rightarrow> (Inl (e, errs), w3)
                 | Inr m \<Rightarrow> import_loop P rest n (errs @ [m]) w3))
      else
        (case name_message ''Invalid key structure: '' k of
           Inl e \<Rightarrow> (Inl (e, errs), w)
         | Inr m \<Rightarrow> import_loop P rest n (errs @ [m]) w))"

definition importKeys :: "platform \<Rightarrow> world \<Rightarrow> js_string \<Rightarrow> ImportResult \<times> world" where
  "importKeys P w keysData =
     (case JSON_parse P keysData of
        Inl e \<Rightarrow>
          (\<lparr>import_success = False, imported = 0,
            import_errors = [js ''Parse error: '' @ js (error_message e)]\<rparr>, w)
      | Inr (JArr importedKeys) \<Rightarrow>
          (case import_loop P importedKeys 0 [] w of
             (Inr (n, errs), w') \<Rightarrow>
               (\<lparr>import_success = (n > 0), imported = n, import_errors = errs\<rparr>, w')
           | (Inl (e, errs), w') \<Rightarrow>
               (\<lparr>import_success = False, imported = 0,
                 import_errors = errs @ [js ''Parse error: '' @ js (error_message e)]\<rparr>, w'))
      | Inr _ \<Rightarrow>
          (\<lparr>import_success = False, imported = 0,
            import_errors = [js ''Invalid format: expected array of keys'']\<rparr>, w))"

section \<open>Worlds and JSON functions for the examples\<close>

text \<open>
  \<open>JSON.stringify\<close> on the values above, without indentation: a string is quoted, with
  \<open>"\<close>, \<open>\\<close> and the control characters escaped and a surrogate that is not part of
  a pair written as \<open>\uXXXX\<close>; an integer is written in decimal.
\<close>

definition hex_digit :: "nat \<Rightarrow> 16 word" where
  "hex_digit n = (if n < 10 then of_nat (48 + n) else of_nat (87 + n))"

definition unicode_escape :: "nat \<Rightarrow> js_string" where
  "unicode_escape n =
     [0x5C, 0x75, hex_digit (n div 4096), hex_digit (n div 256 mod 16),
      hex_digit (n div 16 mod 16), hex_digit (n mod 16)]"

fun quote_units :: "js_string \<Rightarrow> js_string" where
  "quote_units [] = []"
| "quote_units (c # cs) =
     (let n = unat c in
      if n = 0x22 then [0x5C, 0x22] @ quote_units cs
      else if n = 0x5C then [0x5C, 0x5C] @ quote_units cs
      else if n = 0x08 then [0x5C, 0x62] @ quote_units cs
      else if n = 0x09 then [0x5C, 0x74] @ quote_units cs
      else if n = 0x0A then [0x5C, 0x6E] @ quote_units cs
      else if n = 0x0C then [0x5C, 0x66] @ quote_units cs
      else if n = 0x0D then [0x5C, 0x72] @ quote_units cs
      else if n < 0x20 then unicode_escape n @ quote_units cs
      else if 0xD800 \<le> n \<and> n \<le> 0xDBFF then
        (case cs of
           [] \<Rightarrow> unicode_escape n
         | d # ds \<Rightarrow>
             if 0xDC00 \<le> unat d \<and> unat d \<le> 0xDFFF then c # d # quote_units ds
             else unicode_escape n @ quote_units cs)
      else if 0xDC00 \<le> n \<and> n \<le> 0xDFFF then unicode_escape n @ quote_units cs
      else c # quote_units cs)"

definition quote :: "js_string \<Rightarrow> js_string" where
  "quote s = 0x22 # quote_units s @ [0x22]"

fun join_commas :: "js_string list \<Rightarrow> js_string" where
  "join_commas [] = []"
| "join_commas [x] = x"
| "join_commas (x # y # xs) = x @ 0x2C # join_commas (y # xs)"

fun stringify :: "json \<Rightarrow> js_string" where
  "stringify JNull = js ''null''"
| "stringify (JBool b) = (if b then js ''true'' else js ''false'')"
| "stringify (JNum n) = (if n < 0 then 0x2D # decimal (nat (- n)) else decimal (nat n))"
| "stringify (JStr s) = quote s"
| "stringify (JArr xs) = 0x5B # join_commas (map stringify xs) @ [0x5D]"
| "stringify (JObj ps) =
     0x7B # join_commas (map (\<lambda>p. quote (fst p) @ 0x3A # stringify (snd p)) ps) @ [0x7D]"

text \<open>
  A function that stands for \<open>JSON.parse\<close> in the examples: it reads back the texts that
  \<open>stringify\<close> writes for the values \<open>vs\<close>, and raises on every other text. The
  examples give it only texts of the first kind and texts that are not JSON.
\<close>

definition parse_among :: "json list \<Rightarrow> js_string \<Rightarrow> error + json" where
  "parse_among vs s =
     (case find (\<lambda>v. stringify v = s) vs of Some v \<Rightarrow> Inr v | None \<Rightarrow> Inl SyntaxError)"

definition example_platform :: "json list \<Rightarrow> platform" where
  "example_platform vs = \<lparr>JSON_parse = parse_among vs, JSON_stringify = stringify\<rparr>"

text \<open>
  A world whose random source delivers the byte \<open>b\<close> for ever, whose clock starts at
  1000 and whose store is empty and working.
\<close>

definition example_world :: "8 word \<Rightarrow> world" where
  "example_world b =
     \<lparr>random_bytes = (\<lambda>_. b), random_used = 0,
      clock = (\<lambda>n. 1000 + n), clock_used = 0,
      random_ids = (\<lambda>_. js ''k3j9x0q2z''), random_ids_used = 0,
      local_storage = Map.empty, storage_denied = False, storage_full = False\<rparr>"

text \<open>The same world with the master key \<open>Kq7!\<close> and a vault payload in its store.\<close>

definition vault_world :: "js_string option \<Rightarrow> world" where
  "vault_world payload =
     (example_world 0)\<lparr>local_storage :=
        (\<lambda>name. if name = ENCRYPTION_KEY then Some (js ''Kq7!'')
                else if name = STORAGE_KEY then payload else None)\<rparr>"

definition example_key :: "string \<Rightarrow> string \<Rightarrow> json" where
  "example_key i n =
     JObj [(js ''id'', JStr (js i)), (js ''name'', JStr (js n)), (js ''key'', JStr (js ''s3cret'')),
           (js ''algorithm'', JStr (js ''aes''))]"

text \<open>
  The records of the examples: the key \<open>example_key ''1'' ''n''\<close> as \<open>saveKey\<close> stores
  it in an empty vault at time 1000, and the key \<open>example_key ''7'' ''n''\<close> as
  \<open>importKeys\<close> stores it there under the identifier made of the time 1000 and the
  random suffix.
\<close>

definition saved1 :: json where
  "saved1 = JObj [(js ''id'', JStr (js ''1'')), (js ''name'', JStr (js ''n'')),
            (js ''key'', JStr (js ''s3cret'')), (js ''algorithm'', JStr (js ''aes'')),
            (js ''created'', JNum 1000), (js ''used'', JNum 1001)]"

definition saved7 :: json where
  "saved7 = JObj [(js ''id'', JStr (js ''1000k3j9x0q2z'')), (js ''name'', JStr (js ''n'')),
            (js ''key'', JStr (js ''s3cret'')), (js ''algorithm'', JStr (js ''aes'')),
            (js ''created'', JNum 1001), (js ''used'', JNum 1002)]"

text \<open>
  The text handed to \<open>importKeys\<close> in the example: a valid record, \<open>null\<close>, and a second
  valid record.
\<close>

definition import_list :: json where
  "import_list = JArr [example_key ''7'' ''n'', JNull, example_key ''8'' ''m'']"

definition import_platform :: platform where
  "import_platform = example_platform [import_list, JArr [saved7]]"

text \<open>
  A parsed vault content with one well-formed record among entries that are not: \<open>null\<close>,
  a number, a string, an object whose \<open>id\<close> is a number, an array.
\<close>

definition mixed_list :: json where
  "mixed_list =
     JArr [saved1, JNull, JNum 5, JStr (js ''x''),
           JObj [(js ''id'', JNum 3), (js ''name'', JStr (js ''n'')), (js ''key'', JStr (js ''k'')),
                 (js ''algorithm'', JStr (js ''aes''))],
           JArr []]"

text \<open>
  The world of \<open>vault_world\<close> whose vault payload is what \<open>encryptData\<close> writes for the
  JSON text of \<open>v\<close>.
\<close>

definition vault_holding :: "json \<Rightarrow> world" where
  "vault_holding v =
     vault_world (case fst (encryptData (vault_world None) (stringify v)) of
                    Inr enc \<Rightarrow> Some enc
                  | Inl e \<Rightarrow> None)"

text \<open>
  The record that replaces \<open>saved1\<close> when \<open>example_key ''1'' ''renamed''\<close> is saved at time
  1000 into a vault that holds \<open>saved1\<close>.
\<close>

definition replaced1 :: json where
  "replaced1 = JObj [(js ''id'', JStr (js ''1'')), (js ''name'', JStr (js ''renamed'')),
            (js ''key'', JStr (js ''s3cret'')), (js ''algorithm'', JStr (js ''aes'')),
            (js ''used'', JNum 1000)]"

section \<open>Loops and key generation\<close>

lemma string_loop_eq: "string_loop n body i result = result @ map body [i..<n]"
proof (induction n body i result rule: string_loop.induct)
  case (1 n body i result)
  show ?case
  proof (cases "i < n")
    case True
    have "string_loop n body i result = string_loop n body (Suc i) (result @ [body i])"
      using True by (subst string_loop.simps) simp
    also have "\<dots> = (result @ [body i]) @ map body [Suc i..<n]"
      using True "1" by simp
    finally show ?thesis
      using True by (simp add: upt_conv_Cons)
  next
    case False
    then show ?thesis by (subst string_loop.simps) simp
  qed
qed

declare string_loop.simps [simp del]

lemma length_chars: "length chars = 88"
  by (simp add: chars_def js_def)

lemma generateKey_Some:
  assumes "0 \<le> len" "len \<le> 65536"
  shows "generateKey w (Some len) =
           (Inr (map (\<lambda>i. chars ! (unat (random_bytes w (random_used w + i)) mod 88)) [0..<nat len]),
            w\<lparr>random_used := random_used w + nat len\<rparr>)"
  using assms
  by (simp add: generateKey_def getRandomValues_def string_loop_eq length_chars)

lemma generateKey_length:
  assumes "generateKey w la = (Inr k, w')"
  shows "int (length k) = (case la of None \<Rightarrow> 32 | Some l \<Rightarrow> l)"
  using assms
  by (auto simp: generateKey_def getRandomValues_def string_loop_eq split: option.splits if_splits)

text \<open>
  C8, as the claim states it, fails: the alphabet of \<open>generateKey\<close> has 88 symbols, not
  91, so a random byte is reduced modulo 88. The bytes 88 and 90 give \<open>A\<close> and \<open>C\<close>, the
  symbols at index 0 and 2.
\<close>

theorem generateKey_alphabet_counterexample:
  "length chars = 88 \<and> fst (generateKey (example_world 88) (Some 1)) = Inr (js ''A'')
   \<and> fst (generateKey (example_world 90) (Some 1)) = Inr (js ''C'')"
  by code_simp

text \<open>
  C8, amended: for a length between 0 and 65536, \<open>generateKey(length)\<close> returns a string
  of exactly \<open>length\<close> characters, character \<open>i\<close> being the symbol of the fixed 88-symbol
  alphabet at index (\<open>i\<close>-th random byte modulo 88); the length defaults to 32, and
  \<open>generateSalt()\<close> is \<open>generateKey(16)\<close>.
\<close>

theorem generateKey_chars:
  assumes "0 \<le> len" "len \<le> 65536"
  shows "length chars = 88
    \<and> generateKey w None = generateKey w (Some 32)
    \<and> generateSalt w = generateKey w (Some 16)
    \<and> (\<exists>k. generateKey w (Some len) = (Inr k, w\<lparr>random_used := random_used w + nat len\<rparr>)
          \<and> length k = nat len
          \<and> (\<forall>i < nat len. k ! i = chars ! (unat (random_bytes w (random_used w + i)) mod 88)))"
proof -
  have "generateKey w None = generateKey w (Some 32)"
    by (simp add: generateKey_def)
  moreover have "generateSalt w = generateKey w (Some 16)"
    by (simp add: generateSalt_def)
  moreover have "\<exists>k. generateKey w (Some len) = (Inr k, w\<lparr>random_used := random_used w + nat len\<rparr>)
          \<and> length k = nat len
          \<and> (\<forall>i < nat len. k ! i = chars ! (unat (random_bytes w (random_used w + i)) mod 88))"
    using assms by (simp add: generateKey_Some)
  ultimately show ?thesis
    by (simp add: length_chars)
qed

theorem generateKey_chars_witness:
  "(0::int) \<le> 3 \<and> (3::int) \<le> 65536
   \<and> generateKey (example_world 89) None = generateKey (example_world 89) (Some 32)
   \<and> fst (generateKey (example_world 89) (Some 3)) = Inr (js ''BBB'')"
proof -
  have a: "(0::int) \<le> 3" and b: "(3::int) \<le> 65536" by simp_all
  have e: "fst (generateKey (example_world 89) (Some 3)) = Inr (js ''BBB'')"
    by code_simp
  from generateKey_chars [OF a b, of "example_world 89"] e show ?thesis
    by simp
qed

section \<open>Key derivation\<close>

lemma xor_mod_256:
  fixes a b i :: nat
  assumes "a \<le> 255" "b \<le> 255"
  shows "(a XOR b XOR i) mod 256 = a XOR b XOR (i mod 256)"
proof -
  have a: "take_bit 8 a = a" using assms(1) by (simp add: take_bit_nat_eq_self_iff)
  have b: "take_bit 8 b = b" using assms(2) by (simp add: take_bit_nat_eq_self_iff)
  have "(a XOR b XOR i) mod 256 = take_bit 8 (a XOR b XOR i)"
    by (simp add: take_bit_eq_mod)
  also have "\<dots> = a XOR b XOR take_bit 8 i"
    by (simp add: a b)
  finally show ?thesis by (simp add: take_bit_eq_mod)
qed

lemma deriveKey_length: "s \<noteq> [] \<Longrightarrow> length (deriveKey k (Some s)) = max (length k) 32"
  by (simp add: deriveKey_def string_loop_eq)

lemma deriveKey_nth:
  assumes "s \<noteq> []" "k \<noteq> []" "i < max (length k) 32"
  shows "unat (deriveKey k (Some s) ! i)
         = (unat (k ! (i mod length k)) XOR unat (s ! (i mod length s)) XOR i) mod 256"
  using assms
  by (simp add: deriveKey_def string_loop_eq charCodeAt_def rem_index_def to_int32_def
      fromCharCode_def Let_def unat_of_nat)

text \<open>
  C9, as the claim states it, fails on a key with a code unit above 255: for the key
  of the single code unit 256 and the salt \<open>"a"\<close> the first character of the derived key has code 97,
  where the claim's formula \<open>key[0] XOR salt[0] XOR (0 mod 256)\<close> gives 353. The source
  reduces the whole XOR modulo 256.
\<close>

theorem deriveKey_counterexample:
  "unat (deriveKey [0x100] (Some (js ''a'')) ! 0) = 97
   \<and> unat ([0x100 :: 16 word] ! (0 mod length [0x100 :: 16 word]))
       XOR unat (js ''a'' ! (0 mod length (js ''a''))) XOR (0 mod 256) = 353"
  by (simp add: deriveKey_nth js_def)

text \<open>
  C9, amended: \<open>deriveKey(key, salt)\<close> returns \<open>key\<close> unchanged when no salt is given (an
  empty salt counts as none); with a non-empty salt it returns a string of length
  \<open>max(len(key), 32)\<close> whose character at position \<open>i\<close> has, for a non-empty key, the code
  \<open>(key[i mod len(key)] XOR salt[i mod len(salt)] XOR i) mod 256\<close>, which is
  \<open>key[i mod len(key)] XOR salt[i mod len(salt)] XOR (i mod 256)\<close> when both code units
  are at most 255. The result depends on \<open>key\<close> and \<open>salt\<close> only (\<open>deriveKey\<close> takes no
  world), so repeated calls yield the same stream.
\<close>

theorem deriveKey_stream:
  "deriveKey k None = k \<and> deriveKey k (Some []) = k
   \<and> (s \<noteq> [] \<longrightarrow>
        length (deriveKey k (Some s)) = max (length k) 32
        \<and> (\<forall>i < max (length k) 32. k \<noteq> [] \<longrightarrow>
             unat (deriveKey k (Some s) ! i)
               = (unat (k ! (i mod length k)) XOR unat (s ! (i mod length s)) XOR i) mod 256
             \<and> (unat (k ! (i mod length k)) \<le> 255 \<and> unat (s ! (i mod length s)) \<le> 255 \<longrightarrow>
                  unat (deriveKey k (Some s) ! i)
                    = unat (k ! (i mod length k)) XOR unat (s ! (i mod length s)) XOR (i mod 256))))"
proof -
  have "deriveKey k None = k" "deriveKey k (Some []) = k"
    by (simp_all add: deriveKey_def)
  moreover have "unat (deriveKey k (Some s) ! i)
        = unat (k ! (i mod length k)) XOR unat (s ! (i mod length s)) XOR (i mod 256)"
    if "s \<noteq> []" "k \<noteq> []" "i < max (length k) 32"
       "unat (k ! (i mod length k)) \<le> 255" "unat (s ! (i mod length s)) \<le> 255" for i
    using that by (simp add: deriveKey_nth xor_mod_256)
  ultimately show ?thesis
    by (simp add: deriveKey_length deriveKey_nth)
qed

theorem deriveKey_stream_witness:
  "js ''s'' \<noteq> [] \<and> js ''key'' \<noteq> [] \<and> (4::nat) < max (length (js ''key'')) 32
   \<and> length (deriveKey (js ''key'') (Some (js ''s''))) = 32
   \<and> unat (js ''key'' ! (4 mod length (js ''key''))) \<le> 255
   \<and> unat (js ''s'' ! (4 mod length (js ''s''))) \<le> 255
   \<and> unat (deriveKey (js ''key'') (Some (js ''s'')) ! 4) = 18"
  using deriveKey_stream [of "js ''key''" "js ''s''"]
  by (simp add: js_def)

section \<open>The Caesar cipher and its inverse\<close>

text \<open>
  C1 (round trip of every algorithm), evaluated on the code: with the key of 32 \<open>N\<close>,
  which \<open>generateKey\<close> produces when every random byte is 13, the caesar shift is 19;
  \<open>encrypt("hello")\<close> gives \<open>axeeh\<close>, and \<open>decrypt\<close> of it under the same key and
  algorithm succeeds with \<open>NeRRU\<close>, not \<open>hello\<close>: \<open>caesarDecrypt\<close> encrypts with the
  negated shift, and \<open>%\<close> keeps the sign of a negative dividend.
\<close>

theorem caesar_round_trip_fails:
  "fst (encrypt (example_world 13) (js ''hello'')
          \<lparr>algorithm = js ''caesar'', keyLength = None, useSalt = False\<rparr>)
     = Inr \<lparr>encrypted = js ''axeeh'', key = js ''NNNNNNNNNNNNNNNNNNNNNNNNNNNNNNNN'',
            result_algorithm = js ''caesar'', timestamp = 1000, salt = None\<rparr>
   \<and> decrypt (js ''axeeh'') (js ''NNNNNNNNNNNNNNNNNNNNNNNNNNNNNNNN'') (js ''caesar'') None
     = \<lparr>decrypted = js ''NeRRU'', success = True, error = None\<rparr>"
  by code_simp

text \<open>
  C3 (the generated script decrypts as \<open>decrypt\<close> does), evaluated on the code: on the
  cipher text \<open>axeeh\<close> and the shift 19 of the key above, the \<open>caesarDecrypt\<close> of the
  generated script returns \<open>hello\<close>, while \<open>CryptoString.caesarDecrypt\<close>, and with it
  \<open>decrypt\<close>, returns \<open>NeRRU\<close>.
\<close>

theorem snippet_differs_from_caesarDecrypt:
  "key_shift (js ''NNNNNNNNNNNNNNNNNNNNNNNNNNNNNNNN'') = 19
   \<and> snippet_caesarDecrypt (js ''axeeh'') (Some 19) = js ''hello''
   \<and> caesarDecrypt (js ''axeeh'') (Some 19) = js ''NeRRU''
   \<and> decrypted (decrypt (js ''axeeh'') (js ''NNNNNNNNNNNNNNNNNNNNNNNNNNNNNNNN'') (js ''caesar'') None)
       = js ''NeRRU''"
  by code_simp

section \<open>\<open>encrypt\<close>: the length of the generated key\<close>

text \<open>
  C2, as the claim states it, fails: \<open>encrypt\<close> passes \<open>config.keyLength\<close> to
  \<open>generateKey\<close> as it is. With \<open>keyLength = 5\<close> the returned key has 5 characters.
\<close>

theorem encrypt_key_length_counterexample:
  "fst (encrypt (example_world 0) (js ''hello'')
          \<lparr>algorithm = js ''base64'', keyLength = Some 5, useSalt = False\<rparr>)
     = Inr \<lparr>encrypted = js ''aGVsbG8='', key = js ''AAAAA'',
            result_algorithm = js ''base64'', timestamp = 1000, salt = None\<rparr>
   \<and> length (js ''AAAAA'') = 5"
  by code_simp

lemma encrypt_key:
  assumes "encrypt w text config = (Inr r, w')"
  shows "\<exists>w1. generateKey w (if keyLength config = None \<or> keyLength config = Some 0 then None
                            else keyLength config) = (Inr (key r), w1)"
  using assms
  by (auto simp: encrypt_def Let_def split: if_splits prod.splits sum.splits)

text \<open>
  C2, amended: the key in the EncryptionResult that \<open>encrypt(text, config)\<close> returns has
  length \<open>config.keyLength\<close> (32 when \<open>keyLength\<close> is omitted or 0); \<open>encrypt\<close> itself
  does not clamp. The clamp to 16..64 is applied by \<open>handleEncrypt\<close> of the encryption
  form when it builds the configuration, so a key generated through the form has a
  length between 16 and 64 inclusive, whatever the form's key length is.
\<close>

theorem encrypt_key_length:
  assumes "encrypt w text config = (Inr r, w')"
  shows "int (length (key r))
           = (case keyLength config of None \<Rightarrow> 32 | Some l \<Rightarrow> if l = 0 then 32 else l)
         \<and> (config = handleEncrypt_config alg len salted \<longrightarrow>
              16 \<le> length (key r) \<and> length (key r) \<le> 64)"
proof -
  from encrypt_key [OF assms] obtain w1 where
    g: "generateKey w (if keyLength config = None \<or> keyLength config = Some 0 then None
                       else keyLength config) = (Inr (key r), w1)"
    by blast
  have len: "int (length (key r))
           = (case keyLength config of None \<Rightarrow> 32 | Some l \<Rightarrow> if l = 0 then 32 else l)"
    using generateKey_length [OF g] by (auto split: option.splits)
  moreover have "16 \<le> length (key r) \<and> length (key r) \<le> 64"
    if "config = handleEncrypt_config alg len salted"
    using len that by (auto simp: handleEncrypt_config_def split: if_splits)
  ultimately show ?thesis by blast
qed

theorem encrypt_key_length_witness:
  "fst (encrypt (example_world 0) (js ''hello'') (handleEncrypt_config (js ''base64'') 5 True))
     = Inr \<lparr>encrypted = js ''aGVsbG8='', key = js ''AAAAAAAAAAAAAAAA'',
            result_algorithm = js ''base64'', timestamp = 1000, salt = None\<rparr>
   \<and> length (js ''AAAAAAAAAAAAAAAA'') = 16"
proof -
  let ?run = "encrypt (example_world 0) (js ''hello'') (handleEncrypt_config (js ''base64'') 5 True)"
  let ?r = "\<lparr>encrypted = js ''aGVsbG8='', key = js ''AAAAAAAAAAAAAAAA'',
            result_algorithm = js ''base64'', timestamp = 1000, salt = None\<rparr>"
  have e: "fst ?run = Inr ?r"
    by code_simp
  then have "?run = (Inr ?r, snd ?run)"
    by (metis prod.collapse)
  from encrypt_key_length [OF this, of "js ''base64''" 5 True] e show ?thesis
    by (simp add: js_def)
qed

section \<open>\<open>decrypt\<close> is total\<close>





section \<open>\<open>atob\<close> inverts \<open>btoa\<close>\<close>

lemma unat_of_nat_16: "m < 65536 \<Longrightarrow> unat (of_nat m :: 16 word) = m"
  by (simp add: unat_of_nat)

lemma unat_b64_char:
  assumes "n < 64"
  shows "unat (b64_char n) =
    (if n < 26 then n + 65 else if n < 52 then n + 71 else if n < 62 then n - 4
     else if n = 62 then 43 else 47)"
  using assms unat_of_nat_16 [of "n + 65"] unat_of_nat_16 [of "n + 71"] unat_of_nat_16 [of "n - 4"]
  by (simp add: b64_char_def del: of_nat_add of_nat_diff)

lemma b64_index_char: "n < 64 \<Longrightarrow> b64_index (b64_char n) = Some n"
  by (auto simp: b64_index_def unat_b64_char Let_def)

lemma b64_char_not_pad: "n < 64 \<Longrightarrow> b64_char n \<noteq> 0x3D"
proof
  assume "n < 64" and "b64_char n = 0x3D"
  then have "unat (b64_char n) = 61" by simp
  with \<open>n < 64\<close> show False by (simp add: unat_b64_char split: if_splits)
qed

lemma b64_char_not_space: "n < 64 \<Longrightarrow> \<not> is_ascii_whitespace (b64_char n)"
proof
  assume "n < 64" and "is_ascii_whitespace (b64_char n)"
  then have "unat (b64_char n) \<in> {9, 10, 12, 13, 32}"
    by (auto simp: is_ascii_whitespace_def)
  with \<open>n < 64\<close> show False by (auto simp: unat_b64_char split: if_splits)
qed

lemma pad_not_space: "\<not> is_ascii_whitespace 0x3D"
  by (simp add: is_ascii_whitespace_def)

lemma b64_sextets_bound:
  "list_all (\<lambda>b. b < 256) bs \<Longrightarrow> list_all (\<lambda>n. n < 64) (b64_sextets bs)"
  by (induction bs rule: b64_sextets.induct) auto

lemma b64_sextets_length:
  "length (b64_sextets bs) = (length bs div 3) * 4 + (if length bs mod 3 = 0 then 0 else length bs mod 3 + 1)"
  by (induction bs rule: b64_sextets.induct) (auto simp: div_add_self1)

lemma b64_bytes_sextets:
  "list_all (\<lambda>b. b < 256) bs \<Longrightarrow> b64_bytes (b64_sextets bs) = bs"
proof (induction bs rule: b64_sextets.induct)
  case 1
  then show ?case by simp
next
  case (2 a)
  then show ?case by simp
next
  case (3 a b)
  then have "b div 16 < 16" by (simp add: less_mult_imp_div_less)
  then show ?case by simp
next
  case (4 a b c rest)
  then have "b div 16 < 16" "c div 64 < 4" by (simp_all add: less_mult_imp_div_less)
  with 4 show ?case by simp
qed


lemma strip_padding_none:
  assumes "\<forall>c \<in> set d. c \<noteq> 0x3D"
  shows "strip_padding d = d"
proof (cases "rev d")
  case Nil
  then show ?thesis by (simp add: strip_padding_def)
next
  case (Cons a r)
  then have "a \<in> set d" by (metis list.set_intros(1) set_rev)
  with assms have "a \<noteq> 0x3D" by blast
  with Cons show ?thesis by (simp add: strip_padding_def split: list.splits)
qed

lemma strip_padding_one:
  assumes "m \<noteq> []" "\<forall>c \<in> set m. c \<noteq> 0x3D" "length (m @ [0x3D]) mod 4 = 0"
  shows "strip_padding (m @ [0x3D]) = m"
proof -
  from assms(1) obtain b r where r: "rev m = b # r" by (cases "rev m") auto
  then have m: "m = rev r @ [b]" by (metis rev.simps(2) rev_rev_ident)
  then have "b \<in> set m" by simp
  with assms(2) have "b \<noteq> 0x3D" by blast
  then show ?thesis using assms(3) unfolding m by (simp add: strip_padding_def)
qed

lemma strip_padding_two:
  assumes "length (m @ [0x3D, 0x3D]) mod 4 = 0"
  shows "strip_padding (m @ [0x3D, 0x3D]) = m"
  using assms by (simp add: strip_padding_def)

lemma map_filter_inverse:
  assumes "\<forall>x \<in> set xs. f (g x) = Some x"
  shows "List.map_filter f (map g xs) = xs"
  using assms by (induction xs) (simp_all add: map_filter_simps)

lemma atob_encoded:
  assumes "list_all (\<lambda>b. b < 256) bs"
  shows "atob (map b64_char (b64_sextets bs) @ replicate ((3 - length bs mod 3) mod 3) 0x3D)
         = Inr (map (\<lambda>b. fromCharCode (int b)) bs)"
proof -
  let ?sx = "b64_sextets bs"
  let ?m = "map b64_char ?sx"
  let ?p = "(3 - length bs mod 3) mod 3"
  have sx: "\<forall>n \<in> set ?sx. n < 64"
    using b64_sextets_bound [OF assms] by (simp add: list_all_iff)
  have nopad: "\<forall>c \<in> set ?m. c \<noteq> 0x3D"
    using sx by (auto simp: b64_char_not_pad)
  have nospace: "filter (\<lambda>c. \<not> is_ascii_whitespace c) (?m @ replicate ?p 0x3D) = ?m @ replicate ?p 0x3D"
    using sx by (auto simp: filter_id_conv b64_char_not_space pad_not_space)
  consider "length bs mod 3 = 0" | "length bs mod 3 = 1" | "length bs mod 3 = 2"
    by linarith
  then have strip: "strip_padding (?m @ replicate ?p 0x3D) = ?m \<and> length ?m mod 4 \<noteq> 1"
  proof cases
    case 1
    then have "length ?m mod 4 = 0" by (simp add: b64_sextets_length)
    with 1 show ?thesis
      using strip_padding_none [OF nopad] by simp
  next
    case 2
    then have l: "length ?m mod 4 = 2"
      by (simp add: b64_sextets_length; presburger)
    then have "length (?m @ [0x3D, 0x3D]) mod 4 = 0"
      by (simp; presburger)
    from strip_padding_two [OF this] 2 l show ?thesis
      by (simp add: numeral_2_eq_2)
  next
    case 3
    then have l: "length ?m mod 4 = 3"
      by (simp add: b64_sextets_length; presburger)
    then have l': "length (?m @ [0x3D]) mod 4 = 0"
      by (simp; presburger)
    from l have ne: "?m \<noteq> []" by auto
    from strip_padding_one [OF ne nopad l'] 3 l show ?thesis
      by simp
  qed
  have idx: "\<forall>c \<in> set ?m. b64_index c \<noteq> None"
    using sx by (auto simp: b64_index_char)
  have inv: "List.map_filter b64_index ?m = ?sx"
    using sx by (intro map_filter_inverse) (simp add: b64_index_char)
  show ?thesis
    unfolding atob_def nospace Let_def
    using strip idx inv b64_bytes_sextets [OF assms]
    by simp
qed

lemma atob_btoa:
  assumes "\<forall>c \<in> set s. unat c \<le> 255"
  shows "\<exists>e. btoa s = Inr e \<and> atob e = Inr s"
proof -
  have b: "list_all (\<lambda>b. b < 256) (map unat s)"
    using assms by (auto simp: list_all_iff)
  have "map (\<lambda>b. fromCharCode (int b)) (map unat s) = s"
    by (simp add: fromCharCode_def map_idI)
  with atob_encoded [OF b] have
    "atob (map b64_char (b64_sextets (map unat s)) @ replicate ((3 - length s mod 3) mod 3) 0x3D)
       = Inr s"
    by simp
  moreover have "btoa s
       = Inr (map b64_char (b64_sextets (map unat s)) @ replicate ((3 - length s mod 3) mod 3) 0x3D)"
    using assms by (auto simp: btoa_def)
  ultimately show ?thesis by simp
qed


section \<open>The XOR stream ciphers invert\<close>

lemma xor_nat_byte:
  fixes a b :: nat
  assumes "a < 256" "b < 256"
  shows "a XOR b < 256"
proof -
  have "take_bit 8 a = a" "take_bit 8 b = b"
    using assms by (simp_all add: take_bit_nat_eq_self_iff)
  then have "take_bit 8 (a XOR b) = a XOR b"
    by (simp add: take_bit_xor)
  then have "a XOR b < 2 ^ 8"
    by (simp only: take_bit_nat_eq_self_iff)
  then show ?thesis by simp
qed

lemma xor_loop_map:
  "xor_loop t k =
     map (\<lambda>i. t ! i XOR of_nat (to_int32 (charCodeAt k (rem_index i (length k))))
                 XOR of_nat (i mod 256)) [0..<length t]"
  unfolding xor_loop_def string_loop_eq
  by (simp add: charCodeAt_def to_int32_def fromCharCode_def Let_def of_nat_xor_eq)

lemma xor_loop_length: "length (xor_loop t k) = length t"
  by (simp add: xor_loop_map)

lemma xor_loop_involution: "xor_loop (xor_loop t k) k = t"
proof (rule nth_equalityI)
  show "length (xor_loop (xor_loop t k) k) = length t"
    by (simp add: xor_loop_length)
next
  fix i assume "i < length (xor_loop (xor_loop t k) k)"
  then have i: "i < length t" by (simp add: xor_loop_length)
  then have "xor_loop (xor_loop t k) k ! i
      = xor_loop t k ! i XOR of_nat (to_int32 (charCodeAt k (rem_index i (length k))))
          XOR of_nat (i mod 256)"
    by (subst xor_loop_map) (simp add: xor_loop_length)
  also have "xor_loop t k ! i
      = t ! i XOR of_nat (to_int32 (charCodeAt k (rem_index i (length k)))) XOR of_nat (i mod 256)"
    using i by (simp add: xor_loop_map)
  finally show "xor_loop (xor_loop t k) k ! i = t ! i"
    by (simp add: ac_simps)
qed

lemma key_code_byte:
  assumes "\<forall>c \<in> set k. unat c \<le> 255"
  shows "to_int32 (charCodeAt k (rem_index i (length k))) < 256"
proof (cases "k = []")
  case True
  then show ?thesis by (simp add: charCodeAt_def rem_index_def to_int32_def)
next
  case False
  then have "k ! (i mod length k) \<in> set k" by simp
  with assms have "unat (k ! (i mod length k)) \<le> 255" by blast
  with False show ?thesis by (simp add: charCodeAt_def rem_index_def to_int32_def)
qed

lemma xor_loop_latin1:
  assumes "\<forall>c \<in> set t. unat c \<le> 255" "\<forall>c \<in> set k. unat c \<le> 255"
  shows "\<forall>c \<in> set (xor_loop t k). unat c \<le> 255"
proof -
  have "unat (xor_loop t k ! i) \<le> 255" if i: "i < length t" for i
  proof -
    from i have "t ! i \<in> set t" by simp
    with assms(1) have "unat (t ! i) \<le> 255" by blast
    then have a: "unat (t ! i) < 256" by simp
    have b: "to_int32 (charCodeAt k (rem_index i (length k))) < 256"
      by (rule key_code_byte [OF assms(2)])
    have c: "i mod 256 < 256" by simp
    have "unat (xor_loop t k ! i)
        = unat (t ! i) XOR to_int32 (charCodeAt k (rem_index i (length k))) XOR (i mod 256)"
      using i b c by (simp add: xor_loop_map unsigned_xor_eq unat_of_nat)
    also have "\<dots> < 256"
      by (intro xor_nat_byte a b c)
    finally show ?thesis by simp
  qed
  then show ?thesis
    by (auto simp: in_set_conv_nth xor_loop_length)
qed


lemma deriveKey_latin1:
  assumes "\<forall>c \<in> set k. unat c \<le> 255"
  shows "\<forall>c \<in> set (deriveKey k s). unat c \<le> 255"
proof (cases "s = None \<or> s = Some []")
  case True
  then have "deriveKey k s = k" by (auto simp: deriveKey_def)
  with assms show ?thesis by simp
next
  case False
  then obtain s' where s: "s = Some s'" "s' \<noteq> []" by auto
  have "unat (fromCharCode (int (m mod 256))) \<le> 255" for m :: nat
  proof -
    have "m mod 256 < 256" by simp
    then have "unat (fromCharCode (int (m mod 256))) = m mod 256"
      by (simp add: fromCharCode_def unat_of_nat)
    then show ?thesis by simp
  qed
  then show ?thesis
    unfolding s deriveKey_def string_loop_eq using s(2) by (auto simp: Let_def)
qed

lemma xor_stream_round_trip:
  assumes "\<forall>c \<in> set t. unat c \<le> 255" "\<forall>c \<in> set k. unat c \<le> 255"
  shows "\<exists>e. btoa (xor_loop t k) = Inr e \<and> atob e = Inr (xor_loop t k)"
  by (rule atob_btoa) (rule xor_loop_latin1 [OF assms])

text \<open>
  C10: for every non-empty key whose code units are all at most 255 and every plain text
  whose code units are all at most 255, \<open>xorEncrypt\<close> returns a cipher text that
  \<open>xorDecrypt\<close> turns back into the plain text under the same key, and \<open>aesEncrypt\<close>
  returns one that \<open>aesDecrypt\<close> turns back into it under the same key and the same
  optional salt.
\<close>

theorem xor_aes_round_trip:
  assumes "k \<noteq> []"
    and "\<forall>c \<in> set k. unat c \<le> 255"
    and "\<forall>c \<in> set t. unat c \<le> 255"
  shows "(\<exists>e. xorEncrypt t k = Inr e \<and> xorDecrypt e k = Inr t)
       \<and> (\<exists>e. aesEncrypt t k s = Inr e \<and> aesDecrypt e k s = Inr t)"
proof
  from xor_stream_round_trip [OF assms(3) assms(2)]
  obtain e where "btoa (xor_loop t k) = Inr e" "atob e = Inr (xor_loop t k)" by blast
  then have "xorEncrypt t k = Inr e \<and> xorDecrypt e k = Inr t"
    by (simp add: xorEncrypt_def xorDecrypt_def xor_loop_involution)
  then show "\<exists>e. xorEncrypt t k = Inr e \<and> xorDecrypt e k = Inr t" ..
next
  let ?d = "deriveKey k s"
  from xor_stream_round_trip [OF assms(3) deriveKey_latin1 [OF assms(2)]]
  obtain e where "btoa (xor_loop t ?d) = Inr e" "atob e = Inr (xor_loop t ?d)" by blast
  then have "aesEncrypt t k s = Inr e \<and> aesDecrypt e k s = Inr t"
    by (simp add: aesEncrypt_def aesDecrypt_def xor_loop_involution)
  then show "\<exists>e. aesEncrypt t k s = Inr e \<and> aesDecrypt e k s = Inr t" ..
qed

theorem xor_aes_round_trip_witness:
  "js ''k9'' \<noteq> [] \<and> list_all (\<lambda>c. unat c \<le> 255) (js ''k9'')
   \<and> list_all (\<lambda>c. unat c \<le> 255) (js ''hi!'')
   \<and> xorEncrypt (js ''hi!'') (js ''k9'') = Inr (js ''A1FI'')
   \<and> xorDecrypt (js ''A1FI'') (js ''k9'') = Inr (js ''hi!'')
   \<and> aesEncrypt (js ''hi!'') (js ''k9'') None = Inr (js ''A1FI'')
   \<and> aesDecrypt (js ''A1FI'') (js ''k9'') None = Inr (js ''hi!'')
   \<and> (\<exists>e. aesEncrypt (js ''hi!'') (js ''k9'') (Some (js ''salt'')) = Inr e
          \<and> aesDecrypt e (js ''k9'') (Some (js ''salt'')) = Inr (js ''hi!''))"
proof -
  have k: "js ''k9'' \<noteq> []" "\<forall>c \<in> set (js ''k9''). unat c \<le> 255"
    and t: "\<forall>c \<in> set (js ''hi!''). unat c \<le> 255"
    by (simp_all add: js_def)
  have e: "xorEncrypt (js ''hi!'') (js ''k9'') = Inr (js ''A1FI'')"
    "aesEncrypt (js ''hi!'') (js ''k9'') None = Inr (js ''A1FI'')"
    by code_simp+
  from xor_aes_round_trip [OF k t, of None] xor_aes_round_trip [OF k t, of "Some (js ''salt'')"] e k t
  show ?thesis
    by (simp add: list_all_iff)
qed

section \<open>Reading the vault never raises\<close>

lemma try_catch_simps [simp]:
  "try_catch (Inl e, w) h = h e w"
  "try_catch (Inr v, w) h = (Inr v, w)"
  by (simp_all add: try_catch_def)

lemma decryptData_tiers:
  "decryptData w c =
     (Inr (case atob c of
             Inl e \<Rightarrow> js ''[]''
           | Inr d \<Rightarrow> (case fst (getMasterKey w) of Inl e \<Rightarrow> d | Inr mk \<Rightarrow> xor_loop d mk)),
      snd (getMasterKey w))"
proof -
  obtain r w1 where g: "getMasterKey w = (r, w1)" by (cases "getMasterKey w")
  show ?thesis
    by (cases r; cases "atob c") (simp_all add: decryptData_def g in_world_def)
qed

lemma has_key_shape_strings:
  assumes "has_key_shape k"
  shows "\<exists>ps i n v a. k = JObj ps \<and> map_of ps (js ''id'') = Some (JStr i)
           \<and> map_of ps (js ''name'') = Some (JStr n) \<and> map_of ps (js ''key'') = Some (JStr v)
           \<and> map_of ps (js ''algorithm'') = Some (JStr a)"
  using assms
  by (cases k) (auto simp: has_key_shape_def is_string_def get_prop_def split: option.splits json.splits)

lemma getAllKeys_total: "\<exists>ks w'. getAllKeys P w = (Inr ks, w') \<and> list_all has_key_shape ks"
  by (auto simp: getAllKeys_def getItem_def decryptData_tiers list_all_iff
      split: option.splits sum.splits json.splits)

lemma getAllKeys_not_array:
  assumes "local_storage w STORAGE_KEY = Some p"
    and "fst (decryptData w p) = Inr r"
    and "\<forall>xs. JSON_parse P r \<noteq> Inr (JArr xs)"
  shows "fst (getAllKeys P w) = Inr []"
  using assms
  by (auto simp: getAllKeys_def getItem_def decryptData_tiers split: option.splits sum.splits json.splits)

lemma getAllKeys_not_base64:
  assumes "local_storage w STORAGE_KEY = Some p"
    and "atob p = Inl e"
    and "JSON_parse P (js ''[]'') = Inr (JArr [])"
  shows "fst (getAllKeys P w) = Inr []"
  using assms
  by (auto simp: getAllKeys_def getItem_def decryptData_tiers split: option.splits sum.splits json.splits)

lemma has_key_shape_iff:
  "has_key_shape k \<longleftrightarrow>
     (\<exists>ps i n v a. k = JObj ps \<and> map_of ps (js ''id'') = Some (JStr i)
        \<and> map_of ps (js ''name'') = Some (JStr n) \<and> map_of ps (js ''key'') = Some (JStr v)
        \<and> map_of ps (js ''algorithm'') = Some (JStr a))"
proof
  assume "has_key_shape k"
  then show "\<exists>ps i n v a. k = JObj ps \<and> map_of ps (js ''id'') = Some (JStr i)
        \<and> map_of ps (js ''name'') = Some (JStr n) \<and> map_of ps (js ''key'') = Some (JStr v)
        \<and> map_of ps (js ''algorithm'') = Some (JStr a)"
    by (rule has_key_shape_strings)
next
  assume "\<exists>ps i n v a. k = JObj ps \<and> map_of ps (js ''id'') = Some (JStr i)
        \<and> map_of ps (js ''name'') = Some (JStr n) \<and> map_of ps (js ''key'') = Some (JStr v)
        \<and> map_of ps (js ''algorithm'') = Some (JStr a)"
  then show "has_key_shape k"
    by (auto simp: has_key_shape_def is_string_def get_prop_def truthy_def)
qed

lemma getAllKeys_parsed:
  assumes "\<not> storage_denied w" "local_storage w STORAGE_KEY = Some p" "p \<noteq> []"
    and "fst (decryptData w p) = Inr r" "JSON_parse P r = Inr (JArr xs)"
  shows "fst (getAllKeys P w) = Inr (filter has_key_shape xs)"
  using assms
  by (auto simp: getAllKeys_def getItem_def decryptData_tiers split: option.splits sum.splits json.splits)

lemma getAllKeys_no_payload:
  assumes "storage_denied w \<or> local_storage w STORAGE_KEY = None \<or> local_storage w STORAGE_KEY = Some []"
  shows "getAllKeys P w = (Inr [], w)"
  using assms by (auto simp: getAllKeys_def getItem_def)

text \<open>
  C5: decoding a vault payload never raises. \<open>decryptData\<close> returns, for every stored
  string, the master-key XOR inverse of its base64 decoding; when the master key cannot
  be obtained, the plain base64 decoding; and when the string is not base64, the literal
  \<open>[]\<close>. \<open>getAllKeys\<close> returns a list for every store: the empty one when the store
  cannot be read, holds no payload, or the persisted payload is corrupted (it is not
  base64, or what it decodes to is not the JSON text of an array); otherwise the parsed
  array without every entry that is not an object whose \<open>id\<close>, \<open>name\<close>, \<open>key\<close> and
  \<open>algorithm\<close> are strings, the other entries kept in their order.
\<close>

theorem vault_read_total:
  "(\<exists>r w'. decryptData w c = (Inr r, w')
      \<and> r = (case atob c of
                Inl e \<Rightarrow> js ''[]''
              | Inr d \<Rightarrow> (case fst (getMasterKey w) of Inl e \<Rightarrow> d | Inr mk \<Rightarrow> xor_loop d mk)))
   \<and> (\<exists>ks w'. getAllKeys P w = (Inr ks, w')
        \<and> (\<forall>k \<in> set ks. \<exists>ps i n v a. k = JObj ps \<and> map_of ps (js ''id'') = Some (JStr i)
              \<and> map_of ps (js ''name'') = Some (JStr n) \<and> map_of ps (js ''key'') = Some (JStr v)
              \<and> map_of ps (js ''algorithm'') = Some (JStr a))
        \<and> (\<forall>p r. local_storage w STORAGE_KEY = Some p \<and> fst (decryptData w p) = Inr r
              \<and> (\<forall>xs. JSON_parse P r \<noteq> Inr (JArr xs)) \<longrightarrow> ks = [])
        \<and> (\<forall>p e. local_storage w STORAGE_KEY = Some p \<and> atob p = Inl e
              \<and> JSON_parse P (js ''[]'') = Inr (JArr []) \<longrightarrow> ks = [])
        \<and> (storage_denied w \<or> local_storage w STORAGE_KEY = None
              \<or> local_storage w STORAGE_KEY = Some [] \<longrightarrow> ks = [])
        \<and> (\<forall>p r xs. \<not> storage_denied w \<and> local_storage w STORAGE_KEY = Some p \<and> p \<noteq> []
              \<and> fst (decryptData w p) = Inr r \<and> JSON_parse P r = Inr (JArr xs) \<longrightarrow>
              ks = filter (\<lambda>k. \<exists>ps i n v a. k = JObj ps \<and> map_of ps (js ''id'') = Some (JStr i)
                                \<and> map_of ps (js ''name'') = Some (JStr n)
                                \<and> map_of ps (js ''key'') = Some (JStr v)
                                \<and> map_of ps (js ''algorithm'') = Some (JStr a)) xs))"
proof
  show "\<exists>r w'. decryptData w c = (Inr r, w')
      \<and> r = (case atob c of
                Inl e \<Rightarrow> js ''[]''
              | Inr d \<Rightarrow> (case fst (getMasterKey w) of Inl e \<Rightarrow> d | Inr mk \<Rightarrow> xor_loop d mk))"
    by (simp add: decryptData_tiers)
next
  let ?shape = "\<lambda>k. \<exists>ps i n v a. k = JObj ps \<and> map_of ps (js ''id'') = Some (JStr i)
                                \<and> map_of ps (js ''name'') = Some (JStr n)
                                \<and> map_of ps (js ''key'') = Some (JStr v)
                                \<and> map_of ps (js ''algorithm'') = Some (JStr a)"
  have shape: "has_key_shape = ?shape"
    by (rule ext) (rule has_key_shape_iff)
  from getAllKeys_total obtain ks w' where
    g: "getAllKeys P w = (Inr ks, w')" and s: "list_all has_key_shape ks"
    by blast
  have 1: "\<forall>k \<in> set ks. ?shape k"
    using s has_key_shape_strings by (simp add: list_all_iff)
  have 2: "ks = []" if "local_storage w STORAGE_KEY = Some p" "fst (decryptData w p) = Inr r"
      "\<forall>xs. JSON_parse P r \<noteq> Inr (JArr xs)" for p r
    using getAllKeys_not_array [OF that] g by simp
  have 3: "ks = []" if "local_storage w STORAGE_KEY = Some p" "atob p = Inl e"
      "JSON_parse P (js ''[]'') = Inr (JArr [])" for p e
    using getAllKeys_not_base64 [OF that] g by simp
  have 4: "ks = []" if "storage_denied w \<or> local_storage w STORAGE_KEY = None
              \<or> local_storage w STORAGE_KEY = Some []"
    using getAllKeys_no_payload [OF that] g by simp
  have 5: "ks = filter ?shape xs"
    if "\<not> storage_denied w" "local_storage w STORAGE_KEY = Some p" "p \<noteq> []"
      "fst (decryptData w p) = Inr r" "JSON_parse P r = Inr (JArr xs)" for p r xs
    using getAllKeys_parsed [OF that] g by (simp add: shape)
  from g 1 2 3 4 5 show "\<exists>ks w'. getAllKeys P w = (Inr ks, w')
        \<and> (\<forall>k \<in> set ks. ?shape k)
        \<and> (\<forall>p r. local_storage w STORAGE_KEY = Some p \<and> fst (decryptData w p) = Inr r
              \<and> (\<forall>xs. JSON_parse P r \<noteq> Inr (JArr xs)) \<longrightarrow> ks = [])
        \<and> (\<forall>p e. local_storage w STORAGE_KEY = Some p \<and> atob p = Inl e
              \<and> JSON_parse P (js ''[]'') = Inr (JArr []) \<longrightarrow> ks = [])
        \<and> (storage_denied w \<or> local_storage w STORAGE_KEY = None
              \<or> local_storage w STORAGE_KEY = Some [] \<longrightarrow> ks = [])
        \<and> (\<forall>p r xs. \<not> storage_denied w \<and> local_storage w STORAGE_KEY = Some p \<and> p \<noteq> []
              \<and> fst (decryptData w p) = Inr r \<and> JSON_parse P r = Inr (JArr xs) \<longrightarrow>
              ks = filter ?shape xs)"
    by (intro exI [of _ ks] exI [of _ w'] conjI allI impI) (blast+)
qed

section \<open>\<open>saveKey\<close> upserts by id\<close>

lemma map_of_set_prop: "map_of (set_prop n v ps) = (map_of ps)(n \<mapsto> v)"
  by (induction ps) (auto simp: fun_eq_iff)

lemma findIndex_Some:
  assumes "findIndex p xs = Some i"
  shows "i < length xs \<and> p (xs ! i) \<and> (\<forall>j < i. \<not> p (xs ! j))"
  using assms
proof (induction xs arbitrary: i)
  case Nil
  then show ?case by simp
next
  case (Cons x xs)
  show ?case
  proof (cases "p x")
    case True
    with Cons.prems show ?thesis by simp
  next
    case False
    with Cons.prems obtain i' where i': "findIndex p xs = Some i'" "i = Suc i'"
      by auto
    from Cons.IH [OF i'(1)] False i'(2) show ?thesis
      by (auto simp: nth_Cons' less_Suc_eq_0_disj)
  qed
qed

lemma findIndex_None: "findIndex p xs = None \<longleftrightarrow> (\<forall>x \<in> set xs. \<not> p x)"
  by (induction xs) auto

lemma getMasterKey_flags:
  "storage_denied (snd (getMasterKey w)) = storage_denied w"
  "storage_full (snd (getMasterKey w)) = storage_full w"
  by (auto simp: getMasterKey_def getItem_def setItem_def generateMasterKey_def
      getRandomValues_def split: option.splits sum.splits prod.splits if_splits)

lemma encryptData_snd: "snd (encryptData w d) = snd (getMasterKey w)"
proof -
  obtain r w1 where g: "getMasterKey w = (r, w1)" by (cases "getMasterKey w")
  show ?thesis
    by (cases r) (simp_all add: encryptData_def g in_world_def try_catch_def split: sum.splits)
qed

lemma getAllKeys_snd: "snd (getAllKeys P w) = w \<or> snd (getAllKeys P w) = snd (getMasterKey w)"
  by (auto simp: getAllKeys_def getItem_def decryptData_tiers split: option.splits sum.splits json.splits)

lemma getAllKeys_flags:
  "storage_denied (snd (getAllKeys P w)) = storage_denied w"
  "storage_full (snd (getAllKeys P w)) = storage_full w"
  using getAllKeys_snd [of P w] by (auto simp: getMasterKey_flags)

lemma or_now_flags:
  "storage_denied (snd (or_now v w)) = storage_denied w"
  "storage_full (snd (or_now v w)) = storage_full w"
  by (simp_all add: or_now_def Date_now_def split: option.splits)


lemma upsert_existing:
  assumes "\<exists>x \<in> set ks. strict_equal (get_prop x (js ''id'')) (get_prop k (js ''id''))"
  shows "\<exists>i < length ks.
           strict_equal (get_prop (ks ! i) (js ''id'')) (get_prop k (js ''id''))
         \<and> (\<forall>j < i. \<not> strict_equal (get_prop (ks ! j) (js ''id'')) (get_prop k (js ''id'')))
         \<and> upsert k ks w =
             (ks[i := JObj (set_prop (js ''used'') (JNum (int (clock w (clock_used w)))) (own_props k))],
              w\<lparr>clock_used := Suc (clock_used w)\<rparr>)"
proof -
  let ?p = "\<lambda>x. strict_equal (get_prop x (js ''id'')) (get_prop k (js ''id''))"
  from assms have "findIndex ?p ks \<noteq> None" by (simp add: findIndex_None)
  then obtain i where i: "findIndex ?p ks = Some i" by auto
  from findIndex_Some [OF i] i show ?thesis
    by (auto simp: upsert_def Date_now_def)
qed

lemma upsert_new:
  assumes "\<forall>x \<in> set ks. \<not> strict_equal (get_prop x (js ''id'')) (get_prop k (js ''id''))"
  shows "upsert k ks w =
           (ks @ [JObj (set_prop (js ''used'')
                          (fst (or_now (get_prop k (js ''used'')) (snd (or_now (get_prop k (js ''created'')) w))))
                          (set_prop (js ''created'') (fst (or_now (get_prop k (js ''created'')) w))
                             (own_props k)))],
            snd (or_now (get_prop k (js ''used'')) (snd (or_now (get_prop k (js ''created'')) w))))"
proof -
  from assms have "findIndex (\<lambda>x. strict_equal (get_prop x (js ''id'')) (get_prop k (js ''id''))) ks = None"
    by (simp add: findIndex_None)
  then show ?thesis
    by (simp add: upsert_def split: prod.splits)
qed

lemma upsert_flags:
  "storage_denied (snd (upsert k ks w)) = storage_denied w"
  "storage_full (snd (upsert k ks w)) = storage_full w"
  by (auto simp: upsert_def Date_now_def or_now_flags split: option.splits prod.splits)
     (metis or_now_flags snd_conv)+

lemma saveKey_missing:
  assumes "k = JNull \<or> falsy (get_prop k (js ''id'')) \<or> falsy (get_prop k (js ''name''))
           \<or> falsy (get_prop k (js ''key'')) \<or> falsy (get_prop k (js ''algorithm''))"
  shows "saveKey P w k = (Inr False, w)"
  using assms by (auto simp: saveKey_def)

lemma saveKey_present:
  assumes "k \<noteq> JNull" "\<not> falsy (get_prop k (js ''id''))" "\<not> falsy (get_prop k (js ''name''))"
    "\<not> falsy (get_prop k (js ''key''))" "\<not> falsy (get_prop k (js ''algorithm''))"
    and "getAllKeys P w = (Inr ks, w1)" and "upsert k ks w1 = (ks', w2)"
    and "encryptData w2 (JSON_stringify P (JArr ks')) = (r, w3)"
  shows "saveKey P w k =
           (case r of
              Inl e \<Rightarrow> (Inr False, w3)
            | Inr enc \<Rightarrow>
                (case setItem w3 STORAGE_KEY enc of
                   Inl e \<Rightarrow> (Inr False, w3)
                 | Inr w4 \<Rightarrow> (Inr True, w4)))"
  using assms by (simp add: saveKey_def split: sum.splits)

lemma saveKey_total: "\<exists>b w'. saveKey P w k = (Inr b, w')"
proof (cases "k = JNull \<or> falsy (get_prop k (js ''id'')) \<or> falsy (get_prop k (js ''name''))
           \<or> falsy (get_prop k (js ''key'')) \<or> falsy (get_prop k (js ''algorithm''))")
  case True
  from saveKey_missing [OF this] show ?thesis by blast
next
  case False
  obtain ks w1 where g: "getAllKeys P w = (Inr ks, w1)"
    using getAllKeys_total by blast
  obtain ks' w2 where u: "upsert k ks w1 = (ks', w2)" by (cases "upsert k ks w1")
  obtain r w3 where e: "encryptData w2 (JSON_stringify P (JArr ks')) = (r, w3)"
    by (cases "encryptData w2 (JSON_stringify P (JArr ks'))")
  from False saveKey_present [OF _ _ _ _ _ g u e] show ?thesis
    by (auto split: sum.splits)
qed

lemma saveKey_store_raises:
  assumes "storage_denied w \<or> storage_full w"
  shows "fst (saveKey P w k) = Inr False"
proof (cases "k = JNull \<or> falsy (get_prop k (js ''id'')) \<or> falsy (get_prop k (js ''name''))
           \<or> falsy (get_prop k (js ''key'')) \<or> falsy (get_prop k (js ''algorithm''))")
  case True
  then show ?thesis by (simp add: saveKey_missing)
next
  case False
  obtain ks w1 where g: "getAllKeys P w = (Inr ks, w1)"
    using getAllKeys_total by blast
  obtain ks' w2 where u: "upsert k ks w1 = (ks', w2)" by (cases "upsert k ks w1")
  obtain r w3 where e: "encryptData w2 (JSON_stringify P (JArr ks')) = (r, w3)"
    by (cases "encryptData w2 (JSON_stringify P (JArr ks'))")
  have "w1 = snd (getAllKeys P w)" "w2 = snd (upsert k ks w1)"
    "w3 = snd (encryptData w2 (JSON_stringify P (JArr ks')))"
    using g u e by simp_all
  then have "storage_denied w3 \<or> storage_full w3"
    using assms by (simp add: encryptData_snd getMasterKey_flags upsert_flags getAllKeys_flags)
  then have s: "\<exists>e. setItem w3 STORAGE_KEY enc = Inl e" for enc
    by (auto simp: setItem_def)
  from False have "saveKey P w k =
           (case r of
              Inl e \<Rightarrow> (Inr False, w3)
            | Inr enc \<Rightarrow>
                (case setItem w3 STORAGE_KEY enc of
                   Inl e \<Rightarrow> (Inr False, w3)
                 | Inr w4 \<Rightarrow> (Inr True, w4)))"
    by (intro saveKey_present [OF _ _ _ _ _ g u e]) simp_all
  then show ?thesis
  proof (cases r)
    case (Inl e)
    with \<open>saveKey P w k = _\<close> show ?thesis by simp
  next
    case (Inr enc)
    from s [of enc] obtain e where "setItem w3 STORAGE_KEY enc = Inl e" by blast
    with Inr \<open>saveKey P w k = _\<close> show ?thesis by simp
  qed
qed

lemma or_now_value:
  "fst (or_now v w) = (if falsy v then JNum (int (clock w (clock_used w))) else the v)"
  "clock (snd (or_now v w)) = clock w"
  "clock_used (snd (or_now v w)) = clock_used w + (if falsy v then 1 else 0)"
  by (auto simp: or_now_def Date_now_def falsy_def split: option.splits)

subsection \<open>Saving and loading through the vault codec\<close>

lemma getMasterKey_stored:
  assumes "\<not> storage_denied w" "local_storage w ENCRYPTION_KEY = Some mk" "mk \<noteq> []"
  shows "getMasterKey w = (Inr mk, w)"
  using assms by (simp add: getMasterKey_def getItem_def)

lemma atob_empty: "atob [] = Inr []"
  by (simp add: atob_def strip_padding_def map_filter_simps)

lemma encryptData_stored:
  assumes "\<not> storage_denied w" "local_storage w ENCRYPTION_KEY = Some mk" "mk \<noteq> []"
    and "\<forall>c \<in> set mk. unat c \<le> 255" "\<forall>c \<in> set d. unat c \<le> 255" "d \<noteq> []"
  shows "\<exists>enc. encryptData w d = (Inr enc, w) \<and> atob enc = Inr (xor_loop d mk) \<and> enc \<noteq> []"
proof -
  from xor_stream_round_trip [OF assms(5) assms(4)]
  obtain enc where enc: "btoa (xor_loop d mk) = Inr enc" "atob enc = Inr (xor_loop d mk)"
    by blast
  have "xor_loop d mk \<noteq> []"
    using assms(6) xor_loop_length [of d mk] by auto
  with enc(2) have "enc \<noteq> []" using atob_empty by auto
  moreover have "encryptData w d = (Inr enc, w)"
    by (simp add: encryptData_def getMasterKey_stored [OF assms(1-3)] in_world_def enc(1))
  ultimately show ?thesis using enc(2) by blast
qed

lemma getAllKeys_empty:
  assumes "\<not> storage_denied w" "local_storage w STORAGE_KEY = None"
  shows "getAllKeys P w = (Inr [], w)"
  using assms by (simp add: getAllKeys_def getItem_def)

lemma getAllKeys_stored:
  assumes "\<not> storage_denied w" "local_storage w ENCRYPTION_KEY = Some mk" "mk \<noteq> []"
    and "local_storage w STORAGE_KEY = Some enc" "enc \<noteq> []"
    and "atob enc = Inr (xor_loop d mk)"
    and "JSON_parse P d = Inr (JArr ks)"
  shows "getAllKeys P w = (Inr (filter has_key_shape ks), w)"
  using assms
  by (simp add: getAllKeys_def getItem_def decryptData_tiers getMasterKey_stored xor_loop_involution)

lemma upsert_world:
  "\<exists>n. snd (upsert k ks w) = w\<lparr>clock_used := n\<rparr>"
proof (cases "findIndex (\<lambda>x. strict_equal (get_prop x (js ''id'')) (get_prop k (js ''id''))) ks")
  case None
  have "\<exists>n. snd (or_now v w0) = w0\<lparr>clock_used := n\<rparr>" for v w0
    by (cases "falsy v") (auto simp: or_now_def Date_now_def split: option.splits intro: exI [of _ "clock_used w0"])
  then obtain n1 n2 where
    "snd (or_now (get_prop k (js ''created'')) w) = w\<lparr>clock_used := n1\<rparr>"
    "snd (or_now (get_prop k (js ''used'')) (w\<lparr>clock_used := n1\<rparr>)) = w\<lparr>clock_used := n1\<rparr>\<lparr>clock_used := n2\<rparr>"
    by metis
  with None show ?thesis
    by (auto simp: upsert_def split: prod.splits)
next
  case (Some i)
  then show ?thesis by (auto simp: upsert_def Date_now_def)
qed

lemma saveKey_stored:
  assumes "k \<noteq> JNull" "\<not> falsy (get_prop k (js ''id''))" "\<not> falsy (get_prop k (js ''name''))"
    "\<not> falsy (get_prop k (js ''key''))" "\<not> falsy (get_prop k (js ''algorithm''))"
    and "\<not> storage_denied w" "\<not> storage_full w"
    and "local_storage w ENCRYPTION_KEY = Some mk" "mk \<noteq> []" "\<forall>c \<in> set mk. unat c \<le> 255"
    and "getAllKeys P w = (Inr ks, w)"
    and "upsert k ks w = (ks', w2)"
    and "\<forall>c \<in> set (JSON_stringify P (JArr ks')). unat c \<le> 255" "JSON_stringify P (JArr ks') \<noteq> []"
  shows "\<exists>enc. saveKey P w k = (Inr True, w2\<lparr>local_storage := (local_storage w2)(STORAGE_KEY \<mapsto> enc)\<rparr>)
           \<and> atob enc = Inr (xor_loop (JSON_stringify P (JArr ks')) mk) \<and> enc \<noteq> []"
proof -
  from upsert_world [of k ks w] assms(12) obtain n where w2: "w2 = w\<lparr>clock_used := n\<rparr>" by auto
  have a: "\<not> storage_denied w2" "\<not> storage_full w2" "local_storage w2 ENCRYPTION_KEY = Some mk"
    using assms(6-8) by (simp_all add: w2)
  from encryptData_stored [OF a(1) a(3) assms(9) assms(10) assms(13) assms(14)]
  obtain enc where enc: "encryptData w2 (JSON_stringify P (JArr ks')) = (Inr enc, w2)"
    "atob enc = Inr (xor_loop (JSON_stringify P (JArr ks')) mk)" "enc \<noteq> []"
    by blast
  have "setItem w2 STORAGE_KEY enc = Inr (w2\<lparr>local_storage := (local_storage w2)(STORAGE_KEY \<mapsto> enc)\<rparr>)"
    using a by (simp add: setItem_def)
  with saveKey_present [OF assms(1-5) assms(11) assms(12) enc(1)] enc show ?thesis
    by auto
qed

lemma encryptData_latin1:
  assumes "\<forall>c \<in> set d. unat c \<le> 255"
  shows "\<exists>enc. encryptData w d = (Inr enc, snd (getMasterKey w))"
proof -
  obtain r w1 where g: "getMasterKey w = (r, w1)" by (cases "getMasterKey w")
  from atob_btoa [OF assms] obtain e where e: "btoa d = Inr e" by blast
  show ?thesis
  proof (cases r)
    case (Inl x)
    then show ?thesis by (simp add: encryptData_def g in_world_def e)
  next
    case (Inr mk)
    then show ?thesis
      by (cases "btoa (xor_loop d mk)") (simp_all add: encryptData_def g in_world_def e)
  qed
qed

lemma generateMasterKey_length:
  assumes "generateMasterKey w = (Inr m, w1)"
  shows "length m = 32"
  using assms
  by (auto simp: generateMasterKey_def getRandomValues_def string_loop_eq split: if_splits)

lemma generate_and_store:
  assumes "(case generateMasterKey w of
              (Inl e, w1) \<Rightarrow> (Inl e, w1)
            | (Inr m, w1) \<Rightarrow>
                (case setItem w1 ENCRYPTION_KEY m of
                   Inl e \<Rightarrow> (Inl e, w1)
                 | Inr w2 \<Rightarrow> (Inr m, w2))) = (Inr mk, w')"
  shows "\<not> storage_denied w' \<and> local_storage w' ENCRYPTION_KEY = Some mk \<and> mk \<noteq> []"
proof -
  obtain r w1 where g: "generateMasterKey w = (r, w1)" by (cases "generateMasterKey w")
  show ?thesis
  proof (cases r)
    case (Inl e)
    with assms g show ?thesis by simp
  next
    case (Inr m)
    from generateMasterKey_length [OF g [unfolded Inr]] have m: "m \<noteq> []" by auto
    show ?thesis
    proof (cases "setItem w1 ENCRYPTION_KEY m")
      case (Inl e)
      with assms g \<open>r = Inr m\<close> show ?thesis by simp
    next
      case s: (Inr w2)
      with assms g \<open>r = Inr m\<close> have "mk = m" "w' = w2" by simp_all
      moreover from s have "\<not> storage_denied w1"
        "w2 = w1\<lparr>local_storage := (local_storage w1)(ENCRYPTION_KEY \<mapsto> m)\<rparr>"
        by (simp_all add: setItem_def split: if_splits)
      ultimately show ?thesis using m by simp
    qed
  qed
qed

lemma getMasterKey_success:
  assumes "getMasterKey w = (Inr mk, w1)"
  shows "\<not> storage_denied w1 \<and> local_storage w1 ENCRYPTION_KEY = Some mk \<and> mk \<noteq> []"
proof -
  have d: "\<not> storage_denied w"
    using assms by (auto simp: getMasterKey_def getItem_def)
  show ?thesis
  proof (cases "local_storage w ENCRYPTION_KEY")
    case None
    with assms d show ?thesis
      by (intro generate_and_store [of w]) (simp add: getMasterKey_def getItem_def)
  next
    case (Some m)
    show ?thesis
    proof (cases "m = []")
      case True
      with Some assms d show ?thesis
        by (intro generate_and_store [of w]) (simp add: getMasterKey_def getItem_def)
    next
      case False
      with Some assms d show ?thesis
        by (simp add: getMasterKey_def getItem_def)
    qed
  qed
qed

lemma storage_keys_differ: "STORAGE_KEY \<noteq> ENCRYPTION_KEY"
  by (simp add: STORAGE_KEY_def ENCRYPTION_KEY_def js_def)

lemma decrypt_after_encrypt:
  assumes "encryptData w d = (Inr enc, w1)" "fst (getMasterKey w) = Inr mk"
    and "\<forall>c \<in> set mk. unat c \<le> 255" "\<forall>c \<in> set d. unat c \<le> 255"
  shows "decryptData (w1\<lparr>local_storage := (local_storage w1)(STORAGE_KEY \<mapsto> enc)\<rparr>) enc
           = (Inr d, w1\<lparr>local_storage := (local_storage w1)(STORAGE_KEY \<mapsto> enc)\<rparr>)"
proof -
  let ?w' = "w1\<lparr>local_storage := (local_storage w1)(STORAGE_KEY \<mapsto> enc)\<rparr>"
  from assms(2) obtain w2 where g: "getMasterKey w = (Inr mk, w2)"
    by (cases "getMasterKey w") auto
  from xor_stream_round_trip [OF assms(4) assms(3)]
  obtain e where e: "btoa (xor_loop d mk) = Inr e" "atob e = Inr (xor_loop d mk)" by blast
  from assms(1) have "enc = e" "w1 = w2"
    by (simp_all add: encryptData_def g in_world_def e)
  with getMasterKey_success [OF g]
  have "\<not> storage_denied ?w'" "local_storage ?w' ENCRYPTION_KEY = Some mk" "mk \<noteq> []"
    using storage_keys_differ by auto
  from getMasterKey_stored [OF this] e(2) \<open>enc = e\<close> show ?thesis
    by (simp add: decryptData_tiers xor_loop_involution)
qed

lemma saveKey_result:
  assumes "k \<noteq> JNull" "\<not> falsy (get_prop k (js ''id''))" "\<not> falsy (get_prop k (js ''name''))"
    "\<not> falsy (get_prop k (js ''key''))" "\<not> falsy (get_prop k (js ''algorithm''))"
    and "getAllKeys P w = (Inr ks, w1)" and "upsert k ks w1 = (ks', w2)"
  shows "saveKey P w k = (Inr True, w') \<longleftrightarrow>
           \<not> storage_denied w \<and> \<not> storage_full w
           \<and> (\<exists>enc w3. encryptData w2 (JSON_stringify P (JArr ks')) = (Inr enc, w3)
                  \<and> w' = w3\<lparr>local_storage := (local_storage w3)(STORAGE_KEY \<mapsto> enc)\<rparr>)"
proof -
  obtain r w3 where e: "encryptData w2 (JSON_stringify P (JArr ks')) = (r, w3)"
    by (cases "encryptData w2 (JSON_stringify P (JArr ks'))")
  have "w1 = snd (getAllKeys P w)" "w2 = snd (upsert k ks w1)"
    "w3 = snd (encryptData w2 (JSON_stringify P (JArr ks')))"
    using assms(6,7) e by simp_all
  then have flags: "storage_denied w3 = storage_denied w" "storage_full w3 = storage_full w"
    by (simp_all add: encryptData_snd getMasterKey_flags upsert_flags getAllKeys_flags)
  show ?thesis
    unfolding saveKey_present [OF assms e] e
    using flags by (cases r) (auto simp: setItem_def)
qed

subsection \<open>The upsert\<close>

text \<open>
  C6, amended: \<open>saveKey(key)\<close> never raises. It returns false, leaving the store as it
  is, when \<open>id\<close>, \<open>name\<close>, \<open>key\<close> or \<open>algorithm\<close> is missing (or falsy), and it returns
  false when the store raises. Otherwise it upserts by id into the list that
  \<open>getAllKeys\<close> returns: if a stored entry with the same id exists, the first such entry
  is replaced by the key with \<open>used\<close> set to the current time, and the list keeps its
  length; if none exists the key is appended, with \<open>created\<close> and \<open>used\<close> set to the
  current time when absent. It returns true exactly when the store works and the vault
  codec returns a payload for the JSON text of that list, and the store then holds this
  payload; on a working store it does so whenever that text has no code unit above 255,
  and \<open>decryptData\<close> then reads the text back from the payload (for a master key without
  a code unit above 255).
\<close>

theorem saveKey_upsert:
  "(k = JNull \<or> falsy (get_prop k (js ''id'')) \<or> falsy (get_prop k (js ''name''))
      \<or> falsy (get_prop k (js ''key'')) \<or> falsy (get_prop k (js ''algorithm''))
      \<longrightarrow> saveKey P w k = (Inr False, w))
   \<and> (\<exists>b w'. saveKey P w k = (Inr b, w'))
   \<and> (storage_denied w \<or> storage_full w \<longrightarrow> fst (saveKey P w k) = Inr False)
   \<and> (\<exists>ks w1 ks' w2. getAllKeys P w = (Inr ks, w1) \<and> upsert k ks w1 = (ks', w2))
   \<and> (\<forall>ks w1 ks' w2.
        k \<noteq> JNull \<and> \<not> falsy (get_prop k (js ''id'')) \<and> \<not> falsy (get_prop k (js ''name''))
        \<and> \<not> falsy (get_prop k (js ''key'')) \<and> \<not> falsy (get_prop k (js ''algorithm''))
        \<and> getAllKeys P w = (Inr ks, w1) \<and> upsert k ks w1 = (ks', w2) \<longrightarrow>
          ((\<exists>x \<in> set ks. strict_equal (get_prop x (js ''id'')) (get_prop k (js ''id''))) \<longrightarrow>
             length ks' = length ks
             \<and> (\<exists>i < length ks.
                   strict_equal (get_prop (ks ! i) (js ''id'')) (get_prop k (js ''id''))
                 \<and> (\<forall>j < i. \<not> strict_equal (get_prop (ks ! j) (js ''id'')) (get_prop k (js ''id'')))
                 \<and> ks' = ks[i := JObj (set_prop (js ''used'') (JNum (int (clock w1 (clock_used w1))))
                                       (own_props k))]))
        \<and> ((\<forall>x \<in> set ks. \<not> strict_equal (get_prop x (js ''id'')) (get_prop k (js ''id''))) \<longrightarrow>
             ks' = ks @ [JObj (set_prop (js ''used'')
                   (if falsy (get_prop k (js ''used''))
                    then JNum (int (clock w1 (clock_used w1
                                 + (if falsy (get_prop k (js ''created'')) then 1 else 0))))
                    else the (get_prop k (js ''used'')))
                   (set_prop (js ''created'')
                      (if falsy (get_prop k (js ''created''))
                       then JNum (int (clock w1 (clock_used w1)))
                       else the (get_prop k (js ''created'')))
                      (own_props k)))])
        \<and> (\<exists>n. w2 = w1\<lparr>clock_used := n\<rparr>)
        \<and> (\<forall>w'. saveKey P w k = (Inr True, w') \<longleftrightarrow>
               \<not> storage_denied w \<and> \<not> storage_full w
               \<and> (\<exists>enc w3. encryptData w2 (JSON_stringify P (JArr ks')) = (Inr enc, w3)
                      \<and> w' = w3\<lparr>local_storage := (local_storage w3)(STORAGE_KEY \<mapsto> enc)\<rparr>))
        \<and> (\<not> storage_denied w \<and> \<not> storage_full w
             \<and> (\<forall>c \<in> set (JSON_stringify P (JArr ks')). unat c \<le> 255) \<longrightarrow>
               fst (saveKey P w k) = Inr True)
        \<and> (\<forall>enc w3 mk.
               encryptData w2 (JSON_stringify P (JArr ks')) = (Inr enc, w3)
               \<and> fst (getMasterKey w2) = Inr mk \<and> (\<forall>c \<in> set mk. unat c \<le> 255)
               \<and> (\<forall>c \<in> set (JSON_stringify P (JArr ks')). unat c \<le> 255) \<longrightarrow>
                 decryptData (w3\<lparr>local_storage := (local_storage w3)(STORAGE_KEY \<mapsto> enc)\<rparr>) enc
                   = (Inr (JSON_stringify P (JArr ks')),
                      w3\<lparr>local_storage := (local_storage w3)(STORAGE_KEY \<mapsto> enc)\<rparr>)))"
proof (intro conjI allI impI; (elim conjE)?)
  assume "k = JNull \<or> falsy (get_prop k (js ''id'')) \<or> falsy (get_prop k (js ''name''))
      \<or> falsy (get_prop k (js ''key'')) \<or> falsy (get_prop k (js ''algorithm''))"
  then show "saveKey P w k = (Inr False, w)" by (rule saveKey_missing)
next
  show "\<exists>b w'. saveKey P w k = (Inr b, w')" by (rule saveKey_total)
next
  assume "storage_denied w \<or> storage_full w"
  then show "fst (saveKey P w k) = Inr False" by (rule saveKey_store_raises)
next
  obtain ks w1 where g: "getAllKeys P w = (Inr ks, w1)"
    using getAllKeys_total by blast
  obtain ks' w2 where "upsert k ks w1 = (ks', w2)" by (cases "upsert k ks w1")
  with g show "\<exists>ks w1 ks' w2. getAllKeys P w = (Inr ks, w1) \<and> upsert k ks w1 = (ks', w2)"
    by blast
next
  fix ks w1 ks' w2
  assume u: "upsert k ks w1 = (ks', w2)"
    and "\<exists>x \<in> set ks. strict_equal (get_prop x (js ''id'')) (get_prop k (js ''id''))"
  from upsert_existing [OF this(2), of w1] u
  show "length ks' = length ks" by auto
next
  fix ks w1 ks' w2
  assume u: "upsert k ks w1 = (ks', w2)"
    and "\<exists>x \<in> set ks. strict_equal (get_prop x (js ''id'')) (get_prop k (js ''id''))"
  from upsert_existing [OF this(2), of w1] u
  show "\<exists>i < length ks.
                   strict_equal (get_prop (ks ! i) (js ''id'')) (get_prop k (js ''id''))
                 \<and> (\<forall>j < i. \<not> strict_equal (get_prop (ks ! j) (js ''id'')) (get_prop k (js ''id'')))
                 \<and> ks' = ks[i := JObj (set_prop (js ''used'') (JNum (int (clock w1 (clock_used w1))))
                                       (own_props k))]"
    by auto
next
  fix ks w1 ks' w2
  assume u: "upsert k ks w1 = (ks', w2)"
    and "\<forall>x \<in> set ks. \<not> strict_equal (get_prop x (js ''id'')) (get_prop k (js ''id''))"
  from upsert_new [OF this(2), of w1] u
  show "ks' = ks @ [JObj (set_prop (js ''used'')
                   (if falsy (get_prop k (js ''used''))
                    then JNum (int (clock w1 (clock_used w1
                                 + (if falsy (get_prop k (js ''created'')) then 1 else 0))))
                    else the (get_prop k (js ''used'')))
                   (set_prop (js ''created'')
                      (if falsy (get_prop k (js ''created''))
                       then JNum (int (clock w1 (clock_used w1)))
                       else the (get_prop k (js ''created'')))
                      (own_props k)))]"
    by (simp add: or_now_value)
next
  fix ks w1 ks' w2
  assume "upsert k ks w1 = (ks', w2)"
  with upsert_world [of k ks w1] show "\<exists>n. w2 = w1\<lparr>clock_used := n\<rparr>" by simp
next
  fix ks w1 ks' w2 w'
  assume "k \<noteq> JNull" "\<not> falsy (get_prop k (js ''id''))" "\<not> falsy (get_prop k (js ''name''))"
    "\<not> falsy (get_prop k (js ''key''))" "\<not> falsy (get_prop k (js ''algorithm''))"
    "getAllKeys P w = (Inr ks, w1)" "upsert k ks w1 = (ks', w2)"
  then show "saveKey P w k = (Inr True, w') \<longleftrightarrow>
               \<not> storage_denied w \<and> \<not> storage_full w
               \<and> (\<exists>enc w3. encryptData w2 (JSON_stringify P (JArr ks')) = (Inr enc, w3)
                      \<and> w' = w3\<lparr>local_storage := (local_storage w3)(STORAGE_KEY \<mapsto> enc)\<rparr>)"
    by (rule saveKey_result)
next
  fix ks w1 ks' w2
  assume p: "k \<noteq> JNull" "\<not> falsy (get_prop k (js ''id''))" "\<not> falsy (get_prop k (js ''name''))"
    "\<not> falsy (get_prop k (js ''key''))" "\<not> falsy (get_prop k (js ''algorithm''))"
    "getAllKeys P w = (Inr ks, w1)" "upsert k ks w1 = (ks', w2)"
    and s: "\<not> storage_denied w" "\<not> storage_full w"
    and l: "\<forall>c \<in> set (JSON_stringify P (JArr ks')). unat c \<le> 255"
  from encryptData_latin1 [OF l, of w2] obtain enc where
    "encryptData w2 (JSON_stringify P (JArr ks')) = (Inr enc, snd (getMasterKey w2))"
    by blast
  with s have "saveKey P w k = (Inr True, (snd (getMasterKey w2))\<lparr>local_storage :=
        (local_storage (snd (getMasterKey w2)))(STORAGE_KEY \<mapsto> enc)\<rparr>)"
    unfolding saveKey_result [OF p] by blast
  then show "fst (saveKey P w k) = Inr True" by simp
next
  fix ks w1 ks' w2 enc w3 mk
  assume "encryptData w2 (JSON_stringify P (JArr ks')) = (Inr enc, w3)"
    "fst (getMasterKey w2) = Inr mk" "\<forall>c \<in> set mk. unat c \<le> 255"
    "\<forall>c \<in> set (JSON_stringify P (JArr ks')). unat c \<le> 255"
  then show "decryptData (w3\<lparr>local_storage := (local_storage w3)(STORAGE_KEY \<mapsto> enc)\<rparr>) enc
                   = (Inr (JSON_stringify P (JArr ks')),
                      w3\<lparr>local_storage := (local_storage w3)(STORAGE_KEY \<mapsto> enc)\<rparr>)"
    by (rule decrypt_after_encrypt)
qed

section \<open>A concrete vault\<close>

lemma vault_world_store:
  "\<not> storage_denied (vault_world p)" "\<not> storage_full (vault_world p)"
  "local_storage (vault_world p) ENCRYPTION_KEY = Some (js ''Kq7!'')"
  "local_storage (vault_world p) STORAGE_KEY = p"
  "clock (vault_world p) = (\<lambda>n. 1000 + n)" "clock_used (vault_world p) = 0"
  "random_ids (vault_world p) = (\<lambda>_. js ''k3j9x0q2z'')" "random_ids_used (vault_world p) = 0"
  by (simp_all add: vault_world_def example_world_def STORAGE_KEY_def ENCRYPTION_KEY_def js_def)

lemma master_key_latin1: "js ''Kq7!'' \<noteq> []" "\<forall>c \<in> set (js ''Kq7!''). unat c \<le> 255"
  by (simp_all add: js_def)

declare stringify.simps [simp del]

lemmas json_eval =
  stringify.simps js_def get_prop_def truthy_def falsy_def is_string_def strict_equal_def own_props_def
  has_key_shape_def example_key_def quote_def unicode_escape_def hex_digit_def

lemma decimal_1000: "decimal 1000 = js ''1000''"
  by (simp add: js_def)

lemma stringify_saved7_latin1:
  "\<forall>c \<in> set (stringify (JArr [saved7])). unat c \<le> 255" "stringify (JArr [saved7]) \<noteq> []"
  by (simp_all add: saved7_def json_eval)

lemma texts_differ: "stringify import_list \<noteq> stringify (JArr [saved7])"
  by (simp add: saved7_def import_list_def json_eval)

lemma valid7: "validateKeyStructure (example_key ''7'' ''n'')"
  by (simp add: validateKeyStructure_def json_eval trim_def is_white_space_def)

lemma upt_eval: "[i..<j] = (if i < j then i # [i + 1..<j] else [])"
  by (simp add: upt_rec)

lemma example_key_present:
  "example_key i n \<noteq> JNull" "\<not> falsy (get_prop (example_key ''1'' ''n'') (js ''id''))"
  "\<not> falsy (get_prop (example_key ''1'' ''n'') (js ''name''))"
  "\<not> falsy (get_prop (example_key ''1'' ''n'') (js ''key''))"
  "\<not> falsy (get_prop (example_key ''1'' ''n'') (js ''algorithm''))"
  by (simp_all add: json_eval)

lemma parse_among_single: "parse_among [v] (stringify v) = Inr v"
  by (simp add: parse_among_def)

lemma save_first_key:
  "\<exists>enc. saveKey (example_platform vs) (vault_world None) (example_key ''1'' ''n'')
           = (Inr True, (vault_world None)\<lparr>clock_used := 2,
                 local_storage := (local_storage (vault_world None))(STORAGE_KEY \<mapsto> enc)\<rparr>)
         \<and> atob enc = Inr (xor_loop (stringify (JArr [saved1])) (js ''Kq7!'')) \<and> enc \<noteq> []"
proof -
  let ?P = "example_platform vs"
  let ?W = "vault_world None"
  have up: "upsert (example_key ''1'' ''n'') [] ?W = ([saved1], ?W\<lparr>clock_used := 2\<rparr>)"
    by (simp add: upsert_def or_now_def Date_now_def saved1_def json_eval vault_world_store)
  have lat: "\<forall>c \<in> set (JSON_stringify ?P (JArr [saved1])). unat c \<le> 255"
    "JSON_stringify ?P (JArr [saved1]) \<noteq> []"
    by (simp_all add: example_platform_def saved1_def json_eval)
  from saveKey_stored [where P = ?P, OF example_key_present vault_world_store(1,2,3)
      master_key_latin1 getAllKeys_empty [OF vault_world_store(1) vault_world_store(4)] up lat]
  show ?thesis
    by (simp add: example_platform_def)
qed

lemma load_first_key:
  "fst (getAllKeys (example_platform [JArr [saved1]])
         (snd (saveKey (example_platform [JArr [saved1]]) (vault_world None) (example_key ''1'' ''n''))))
     = Inr [saved1]"
proof -
  let ?P = "example_platform [JArr [saved1]]"
  from save_first_key [of "[JArr [saved1]]"] obtain enc where
    save: "saveKey ?P (vault_world None) (example_key ''1'' ''n'')
           = (Inr True, (vault_world None)\<lparr>clock_used := 2,
                 local_storage := (local_storage (vault_world None))(STORAGE_KEY \<mapsto> enc)\<rparr>)"
    and enc: "atob enc = Inr (xor_loop (stringify (JArr [saved1])) (js ''Kq7!''))" "enc \<noteq> []"
    by blast
  let ?W' = "(vault_world None)\<lparr>clock_used := 2,
                 local_storage := (local_storage (vault_world None))(STORAGE_KEY \<mapsto> enc)\<rparr>"
  have store: "\<not> storage_denied ?W'" "local_storage ?W' ENCRYPTION_KEY = Some (js ''Kq7!'')"
    "local_storage ?W' STORAGE_KEY = Some enc"
    by (simp_all add: vault_world_store) (simp add: STORAGE_KEY_def ENCRYPTION_KEY_def js_def)
  have p: "JSON_parse ?P (stringify (JArr [saved1])) = Inr (JArr [saved1])"
    by (simp add: example_platform_def parse_among_single)
  have "getAllKeys ?P ?W' = (Inr (filter has_key_shape [saved1]), ?W')"
    by (rule getAllKeys_stored [OF store(1) store(2) master_key_latin1(1) store(3) enc(2) enc(1) p])
  moreover have "has_key_shape saved1"
    by (simp add: saved1_def json_eval)
  ultimately show ?thesis by (simp add: save)
qed

lemma decrypt_garbage:
  "atob (js ''%%%'') = Inl InvalidCharacterError"
  "fst (decryptData (vault_world (Some (js ''AAAA''))) (js ''AAAA'')) = Inr (js ''Kp5'')"
  "JSON_parse (example_platform [JArr []]) (js ''Kp5'') = Inl SyntaxError"
  "JSON_parse (example_platform [JArr []]) (js ''[]'') = Inr (JArr [])"
proof -
  show "atob (js ''%%%'') = Inl InvalidCharacterError"
    by (simp add: atob_def js_def is_ascii_whitespace_def strip_padding_def b64_index_def)
  have "atob (js ''AAAA'') = Inr [0, 0, 0]"
    by (simp add: atob_def js_def is_ascii_whitespace_def strip_padding_def b64_index_def
        map_filter_simps fromCharCode_def)
  moreover have "xor_loop [0, 0, 0] (js ''Kq7!'') = js ''Kp5''"
    by (simp add: xor_loop_map js_def charCodeAt_def rem_index_def to_int32_def upt_eval)
  ultimately show "fst (decryptData (vault_world (Some (js ''AAAA''))) (js ''AAAA'')) = Inr (js ''Kp5'')"
    by (simp add: decryptData_tiers
        getMasterKey_stored [OF vault_world_store(1) vault_world_store(3) master_key_latin1(1)])
  show "JSON_parse (example_platform [JArr []]) (js ''Kp5'') = Inl SyntaxError"
    by (simp add: example_platform_def parse_among_def json_eval)
  show "JSON_parse (example_platform [JArr []]) (js ''[]'') = Inr (JArr [])"
    by (simp add: example_platform_def parse_among_def json_eval)
qed

lemma vault_holding_store:
  assumes "\<forall>c \<in> set (stringify v). unat c \<le> 255" "stringify v \<noteq> []"
  shows "\<exists>enc. vault_holding v = vault_world (Some enc)
           \<and> atob enc = Inr (xor_loop (stringify v) (js ''Kq7!'')) \<and> enc \<noteq> []"
proof -
  from encryptData_stored [OF vault_world_store(1) vault_world_store(3) master_key_latin1 assms,
      of None]
  obtain enc where "encryptData (vault_world None) (stringify v) = (Inr enc, vault_world None)"
    "atob enc = Inr (xor_loop (stringify v) (js ''Kq7!''))" "enc \<noteq> []"
    by blast
  then have "vault_holding v = vault_world (Some enc)" by (simp add: vault_holding_def)
  with \<open>atob enc = Inr (xor_loop (stringify v) (js ''Kq7!''))\<close> \<open>enc \<noteq> []\<close>
  show ?thesis by blast
qed

lemma vault_holding_fields:
  "\<not> storage_denied (vault_holding v)" "\<not> storage_full (vault_holding v)"
  "local_storage (vault_holding v) ENCRYPTION_KEY = Some (js ''Kq7!'')"
  "clock (vault_holding v) = (\<lambda>n. 1000 + n)" "clock_used (vault_holding v) = 0"
  by (simp_all add: vault_holding_def vault_world_store)

lemma vault_holding_payload:
  assumes "\<forall>c \<in> set (stringify v). unat c \<le> 255" "stringify v \<noteq> []"
  shows "\<exists>p. local_storage (vault_holding v) STORAGE_KEY = Some p \<and> p \<noteq> []
           \<and> fst (decryptData (vault_holding v) p) = Inr (stringify v)"
proof -
  from vault_holding_store [OF assms] obtain enc where
    e: "vault_holding v = vault_world (Some enc)"
    "atob enc = Inr (xor_loop (stringify v) (js ''Kq7!''))" "enc \<noteq> []"
    by blast
  have "fst (decryptData (vault_world (Some enc)) enc) = Inr (stringify v)"
    by (simp add: decryptData_tiers e(2) xor_loop_involution
        getMasterKey_stored [OF vault_world_store(1) vault_world_store(3) master_key_latin1(1)])
  with e show ?thesis by (simp add: vault_world_store)
qed

lemma stringify_mixed_latin1:
  "\<forall>c \<in> set (stringify mixed_list). unat c \<le> 255" "stringify mixed_list \<noteq> []"
  by (simp_all add: mixed_list_def saved1_def json_eval)

lemma stringify_saved1_latin1:
  "\<forall>c \<in> set (stringify (JArr [saved1])). unat c \<le> 255" "stringify (JArr [saved1]) \<noteq> []"
  by (simp_all add: saved1_def json_eval)

lemma stringify_replaced1_latin1:
  "\<forall>c \<in> set (stringify (JArr [replaced1])). unat c \<le> 255" "stringify (JArr [replaced1]) \<noteq> []"
  by (simp_all add: replaced1_def json_eval)

lemma filter_mixed:
  "mixed_list = JArr [saved1, JNull, JNum 5, JStr (js ''x''),
           JObj [(js ''id'', JNum 3), (js ''name'', JStr (js ''n'')), (js ''key'', JStr (js ''k'')),
                 (js ''algorithm'', JStr (js ''aes''))],
           JArr []]"
  "filter has_key_shape [saved1, JNull, JNum 5, JStr (js ''x''),
           JObj [(js ''id'', JNum 3), (js ''name'', JStr (js ''n'')), (js ''key'', JStr (js ''k'')),
                 (js ''algorithm'', JStr (js ''aes''))],
           JArr []] = [saved1]"
  by (simp_all add: mixed_list_def saved1_def json_eval)

lemma renamed_key:
  "example_key ''1'' ''renamed'' \<noteq> JNull"
  "\<not> falsy (get_prop (example_key ''1'' ''renamed'') (js ''id''))"
  "\<not> falsy (get_prop (example_key ''1'' ''renamed'') (js ''name''))"
  "\<not> falsy (get_prop (example_key ''1'' ''renamed'') (js ''key''))"
  "\<not> falsy (get_prop (example_key ''1'' ''renamed'') (js ''algorithm''))"
  "strict_equal (get_prop saved1 (js ''id'')) (get_prop (example_key ''1'' ''renamed'') (js ''id''))"
  "JObj (set_prop (js ''used'') (JNum 1000) (own_props (example_key ''1'' ''renamed''))) = replaced1"
  "has_key_shape saved1" "has_key_shape replaced1"
  by (simp_all add: saved1_def replaced1_def json_eval)

lemma parse_saved_replaced:
  "JSON_parse (example_platform [JArr [saved1], JArr [replaced1]]) (stringify (JArr [saved1]))
     = Inr (JArr [saved1])"
  "JSON_parse (example_platform [JArr [saved1], JArr [replaced1]]) (stringify (JArr [replaced1]))
     = Inr (JArr [replaced1])"
  "JSON_stringify (example_platform vs) = stringify"
proof -
  have "stringify (JArr [saved1]) \<noteq> stringify (JArr [replaced1])"
    by (simp add: saved1_def replaced1_def json_eval)
  then show
    "JSON_parse (example_platform [JArr [saved1], JArr [replaced1]]) (stringify (JArr [saved1]))
       = Inr (JArr [saved1])"
    "JSON_parse (example_platform [JArr [saved1], JArr [replaced1]]) (stringify (JArr [replaced1]))
       = Inr (JArr [replaced1])"
    by (simp_all add: example_platform_def parse_among_def)
  show "JSON_stringify (example_platform vs) = stringify"
    by (simp add: example_platform_def)
qed

lemma load_held_key:
  "getAllKeys (example_platform [JArr [saved1], JArr [replaced1]]) (vault_holding (JArr [saved1]))
     = (Inr [saved1], vault_holding (JArr [saved1]))"
proof -
  from vault_holding_store [OF stringify_saved1_latin1] obtain enc where
    e: "vault_holding (JArr [saved1]) = vault_world (Some enc)"
    "atob enc = Inr (xor_loop (stringify (JArr [saved1])) (js ''Kq7!''))" "enc \<noteq> []"
    by blast
  from getAllKeys_stored [OF vault_world_store(1) vault_world_store(3) master_key_latin1(1)
      vault_world_store(4) e(3) e(2) parse_saved_replaced(1)]
  show ?thesis by (simp add: e(1) renamed_key)
qed

lemma replace_held_key:
  "upsert (example_key ''1'' ''renamed'') [saved1] (vault_holding (JArr [saved1]))
     = ([replaced1], (vault_holding (JArr [saved1]))\<lparr>clock_used := 1\<rparr>)"
proof -
  have "findIndex (\<lambda>x. strict_equal (get_prop x (js ''id''))
            (get_prop (example_key ''1'' ''renamed'') (js ''id''))) [saved1] = Some 0"
    by (simp add: renamed_key)
  then show ?thesis
    by (simp add: upsert_def Date_now_def vault_holding_fields renamed_key)
qed

lemma getMasterKey_full:
  assumes "storage_full w"
  shows "local_storage (snd (getMasterKey w)) = local_storage w"
  using assms
  by (auto simp: getMasterKey_def getItem_def setItem_def generateMasterKey_def
      getRandomValues_def split: option.splits sum.splits prod.splits if_splits)

lemma saveKey_full_store:
  assumes "storage_full w"
  shows "local_storage (snd (saveKey P w k)) = local_storage w"
proof (cases "k = JNull \<or> falsy (get_prop k (js ''id'')) \<or> falsy (get_prop k (js ''name''))
           \<or> falsy (get_prop k (js ''key'')) \<or> falsy (get_prop k (js ''algorithm''))")
  case True
  then show ?thesis by (simp add: saveKey_missing)
next
  case False
  obtain ks w1 where g: "getAllKeys P w = (Inr ks, w1)"
    using getAllKeys_total by blast
  obtain ks' w2 where u: "upsert k ks w1 = (ks', w2)" by (cases "upsert k ks w1")
  obtain r w3 where e: "encryptData w2 (JSON_stringify P (JArr ks')) = (r, w3)"
    by (cases "encryptData w2 (JSON_stringify P (JArr ks'))")
  have w1: "w1 = snd (getAllKeys P w)" and w2: "w2 = snd (upsert k ks w1)"
    and w3: "w3 = snd (getMasterKey w2)"
    using g u e encryptData_snd [of w2 "JSON_stringify P (JArr ks')"] by simp_all
  have f1: "storage_full w1" "local_storage w1 = local_storage w"
    using getAllKeys_snd [of P w] assms by (auto simp: w1 getMasterKey_flags getMasterKey_full)
  from upsert_world [of k ks w1] obtain n where "w2 = w1\<lparr>clock_used := n\<rparr>"
    by (auto simp: w2)
  with f1 have f2: "storage_full w2" "local_storage w2 = local_storage w" by simp_all
  then have f3: "storage_full w3" "local_storage w3 = local_storage w"
    by (simp_all add: w3 getMasterKey_flags getMasterKey_full)
  then have s: "\<exists>e. setItem w3 STORAGE_KEY enc = Inl e" for enc
    by (auto simp: setItem_def)
  from False have eq: "saveKey P w k =
           (case r of
              Inl e \<Rightarrow> (Inr False, w3)
            | Inr enc \<Rightarrow>
                (case setItem w3 STORAGE_KEY enc of
                   Inl e \<Rightarrow> (Inr False, w3)
                 | Inr w4 \<Rightarrow> (Inr True, w4)))"
    by (intro saveKey_present [OF _ _ _ _ _ g u e]) simp_all
  show ?thesis
  proof (cases r)
    case (Inl e)
    with eq f3 show ?thesis by simp
  next
    case (Inr enc)
    from s [of enc] obtain e where "setItem w3 STORAGE_KEY enc = Inl e" by blast
    with Inr eq f3 show ?thesis by simp
  qed
qed

text \<open>
  C6, as the claim states it, fails: with \<open>id\<close>, \<open>name\<close>, \<open>key\<close> and \<open>algorithm\<close> all
  present, \<open>saveKey\<close> returns false and stores nothing when \<open>localStorage.setItem\<close>
  raises (here: the store is full), since its \<open>catch\<close> turns every failure into
  \<open>false\<close>.
\<close>

theorem saveKey_full_store_counterexample:
  "example_key ''1'' ''n'' \<noteq> JNull
   \<and> \<not> falsy (get_prop (example_key ''1'' ''n'') (js ''id''))
   \<and> \<not> falsy (get_prop (example_key ''1'' ''n'') (js ''name''))
   \<and> \<not> falsy (get_prop (example_key ''1'' ''n'') (js ''key''))
   \<and> \<not> falsy (get_prop (example_key ''1'' ''n'') (js ''algorithm''))
   \<and> fst (saveKey (example_platform []) ((vault_world None)\<lparr>storage_full := True\<rparr>)
             (example_key ''1'' ''n'')) = Inr False
   \<and> local_storage (snd (saveKey (example_platform []) ((vault_world None)\<lparr>storage_full := True\<rparr>)
             (example_key ''1'' ''n''))) STORAGE_KEY = None"
proof -
  let ?W = "(vault_world None)\<lparr>storage_full := True\<rparr>"
  have f: "storage_full ?W" by simp
  then have "storage_denied ?W \<or> storage_full ?W" by simp
  from saveKey_store_raises [OF this] saveKey_full_store [OF f] example_key_present
  show ?thesis
    by (simp add: vault_world_store)
qed

theorem vault_read_total_witness:
  "fst (getAllKeys (example_platform [JArr [saved1]])
         (snd (saveKey (example_platform [JArr [saved1]]) (vault_world None) (example_key ''1'' ''n''))))
     = Inr [saved1]
   \<and> (\<exists>ps i n v a. saved1 = JObj ps \<and> map_of ps (js ''id'') = Some (JStr i)
          \<and> map_of ps (js ''name'') = Some (JStr n) \<and> map_of ps (js ''key'') = Some (JStr v)
          \<and> map_of ps (js ''algorithm'') = Some (JStr a))
   \<and> local_storage (vault_world (Some (js ''%%%''))) STORAGE_KEY = Some (js ''%%%'')
   \<and> atob (js ''%%%'') = Inl InvalidCharacterError
   \<and> JSON_parse (example_platform [JArr []]) (js ''[]'') = Inr (JArr [])
   \<and> fst (decryptData (vault_world (Some (js ''%%%''))) (js ''%%%'')) = Inr (js ''[]'')
   \<and> fst (getAllKeys (example_platform [JArr []]) (vault_world (Some (js ''%%%'')))) = Inr []
   \<and> local_storage (vault_world (Some (js ''AAAA''))) STORAGE_KEY = Some (js ''AAAA'')
   \<and> fst (decryptData (vault_world (Some (js ''AAAA''))) (js ''AAAA'')) = Inr (js ''Kp5'')
   \<and> JSON_parse (example_platform [JArr []]) (js ''Kp5'') = Inl SyntaxError
   \<and> fst (getAllKeys (example_platform [JArr []]) (vault_world (Some (js ''AAAA'')))) = Inr []
   \<and> local_storage (vault_world None) STORAGE_KEY = None
   \<and> fst (getAllKeys (example_platform [JArr []]) (vault_world None)) = Inr []
   \<and> \<not> storage_denied (vault_holding mixed_list)
   \<and> (\<exists>p. local_storage (vault_holding mixed_list) STORAGE_KEY = Some p \<and> p \<noteq> []
          \<and> fst (decryptData (vault_holding mixed_list) p) = Inr (stringify mixed_list))
   \<and> JSON_parse (example_platform [mixed_list]) (stringify mixed_list) = Inr mixed_list
   \<and> mixed_list = JArr [saved1, JNull, JNum 5, JStr (js ''x''),
           JObj [(js ''id'', JNum 3), (js ''name'', JStr (js ''n'')), (js ''key'', JStr (js ''k'')),
                 (js ''algorithm'', JStr (js ''aes''))],
           JArr []]
   \<and> fst (getAllKeys (example_platform [mixed_list]) (vault_holding mixed_list)) = Inr [saved1]"
proof -
  let ?Pa = "example_platform [JArr [saved1]]"
  let ?Wa = "snd (saveKey ?Pa (vault_world None) (example_key ''1'' ''n''))"
  let ?Pz = "example_platform [JArr []]"
  let ?Pm = "example_platform [mixed_list]"
  let ?Wm = "vault_holding mixed_list"
  let ?items = "[saved1, JNull, JNum 5, JStr (js ''x''),
           JObj [(js ''id'', JNum 3), (js ''name'', JStr (js ''n'')), (js ''key'', JStr (js ''k'')),
                 (js ''algorithm'', JStr (js ''aes''))],
           JArr []]"
  let ?shape = "\<lambda>k. \<exists>ps i n v a. k = JObj ps \<and> map_of ps (js ''id'') = Some (JStr i)
                                \<and> map_of ps (js ''name'') = Some (JStr n)
                                \<and> map_of ps (js ''key'') = Some (JStr v)
                                \<and> map_of ps (js ''algorithm'') = Some (JStr a)"
  from vault_read_total [of ?Wa "[]" ?Pa] load_first_key
  have 1: "\<exists>ps i n v a. saved1 = JObj ps \<and> map_of ps (js ''id'') = Some (JStr i)
          \<and> map_of ps (js ''name'') = Some (JStr n) \<and> map_of ps (js ''key'') = Some (JStr v)
          \<and> map_of ps (js ''algorithm'') = Some (JStr a)"
    by auto
  from vault_read_total [of "vault_world (Some (js ''%%%''))" "js ''%%%''" ?Pz]
    decrypt_garbage(1,4) vault_world_store(4) [of "Some (js ''%%%'')"]
  have 2: "fst (decryptData (vault_world (Some (js ''%%%''))) (js ''%%%'')) = Inr (js ''[]'')"
    "fst (getAllKeys ?Pz (vault_world (Some (js ''%%%'')))) = Inr []"
    by auto
  have "\<forall>xs. JSON_parse ?Pz (js ''Kp5'') \<noteq> Inr (JArr xs)"
    by (simp add: decrypt_garbage(3))
  with vault_read_total [of "vault_world (Some (js ''AAAA''))" "js ''AAAA''" ?Pz]
    decrypt_garbage(2) vault_world_store(4) [of "Some (js ''AAAA'')"]
  have 3: "fst (getAllKeys ?Pz (vault_world (Some (js ''AAAA'')))) = Inr []"
    by auto
  from vault_read_total [of "vault_world None" "[]" ?Pz] vault_world_store(4) [of None]
  have 4: "fst (getAllKeys ?Pz (vault_world None)) = Inr []"
    by auto
  have shape: "has_key_shape = ?shape"
    by (rule ext) (rule has_key_shape_iff)
  from vault_holding_payload [OF stringify_mixed_latin1] obtain p where
    p: "local_storage ?Wm STORAGE_KEY = Some p" "p \<noteq> []"
    "fst (decryptData ?Wm p) = Inr (stringify mixed_list)"
    by blast
  have parse: "JSON_parse ?Pm (stringify mixed_list) = Inr (JArr ?items)"
    using parse_among_single [of mixed_list]
    by (simp add: example_platform_def filter_mixed(1) [symmetric])
  from vault_read_total [of ?Wm "[]" ?Pm] obtain ks w' where
    g: "getAllKeys ?Pm ?Wm = (Inr ks, w')"
    and f: "\<forall>p r xs. \<not> storage_denied ?Wm \<and> local_storage ?Wm STORAGE_KEY = Some p \<and> p \<noteq> []
              \<and> fst (decryptData ?Wm p) = Inr r \<and> JSON_parse ?Pm r = Inr (JArr xs) \<longrightarrow>
              ks = filter ?shape xs"
    by blast
  from f vault_holding_fields(1) [of mixed_list] p parse
  have "ks = filter ?shape ?items" by blast
  then have "ks = filter has_key_shape ?items" unfolding shape .
  then have "ks = [saved1]" by (simp only: filter_mixed(2))
  with g have 5: "fst (getAllKeys ?Pm ?Wm) = Inr [saved1]"
    by simp
  have 6: "\<exists>p. local_storage ?Wm STORAGE_KEY = Some p \<and> p \<noteq> []
          \<and> fst (decryptData ?Wm p) = Inr (stringify mixed_list)"
    using p by blast
  have 7: "JSON_parse ?Pm (stringify mixed_list) = Inr mixed_list"
    using parse_among_single [of mixed_list] by (simp add: example_platform_def)
  show ?thesis
    by (intro conjI) (fact load_first_key 1 2 3 4 5 6 7 decrypt_garbage filter_mixed(1)
        vault_world_store(4) vault_holding_fields(1))+
qed

theorem saveKey_upsert_witness:
  "fst (saveKey (example_platform []) (vault_world None) JNull) = Inr False
   \<and> fst (saveKey (example_platform []) ((vault_world None)\<lparr>storage_full := True\<rparr>)
             (example_key ''1'' ''n'')) = Inr False
   \<and> getAllKeys (example_platform []) (vault_world None) = (Inr [], vault_world None)
   \<and> upsert (example_key ''1'' ''n'') [] (vault_world None)
       = ([saved1], (vault_world None)\<lparr>clock_used := 2\<rparr>)
   \<and> fst (saveKey (example_platform []) (vault_world None) (example_key ''1'' ''n'')) = Inr True
   \<and> getAllKeys (example_platform [JArr [saved1], JArr [replaced1]]) (vault_holding (JArr [saved1]))
       = (Inr [saved1], vault_holding (JArr [saved1]))
   \<and> strict_equal (get_prop saved1 (js ''id'')) (get_prop (example_key ''1'' ''renamed'') (js ''id''))
   \<and> upsert (example_key ''1'' ''renamed'') [saved1] (vault_holding (JArr [saved1]))
       = ([replaced1], (vault_holding (JArr [saved1]))\<lparr>clock_used := 1\<rparr>)
   \<and> fst (saveKey (example_platform [JArr [saved1], JArr [replaced1]]) (vault_holding (JArr [saved1]))
            (example_key ''1'' ''renamed'')) = Inr True
   \<and> (\<exists>enc. local_storage
               (snd (saveKey (example_platform [JArr [saved1], JArr [replaced1]])
                      (vault_holding (JArr [saved1])) (example_key ''1'' ''renamed'')))
               STORAGE_KEY = Some enc
          \<and> fst (decryptData
                  (snd (saveKey (example_platform [JArr [saved1], JArr [replaced1]])
                         (vault_holding (JArr [saved1])) (example_key ''1'' ''renamed'')))
                  enc) = Inr (stringify (JArr [replaced1])))
   \<and> fst (getAllKeys (example_platform [JArr [saved1], JArr [replaced1]])
            (snd (saveKey (example_platform [JArr [saved1], JArr [replaced1]])
                   (vault_holding (JArr [saved1])) (example_key ''1'' ''renamed''))))
       = Inr [replaced1]"
proof -
  let ?Pe = "example_platform []"
  let ?We = "vault_world None"
  let ?k1 = "example_key ''1'' ''n''"
  let ?P = "example_platform [JArr [saved1], JArr [replaced1]]"
  let ?W = "vault_holding (JArr [saved1])"
  let ?k = "example_key ''1'' ''renamed''"
  let ?t = "stringify (JArr [replaced1])"
  have 1: "fst (saveKey ?Pe ?We JNull) = Inr False"
    using saveKey_upsert [of JNull ?Pe ?We] by simp
  have 2: "fst (saveKey ?Pe (?We\<lparr>storage_full := True\<rparr>) ?k1) = Inr False"
    using saveKey_upsert [of ?k1 ?Pe "?We\<lparr>storage_full := True\<rparr>"] by simp
  have g0: "getAllKeys ?Pe ?We = (Inr [], ?We)"
    by (rule getAllKeys_empty [OF vault_world_store(1) vault_world_store(4)])
  have u0: "upsert ?k1 [] ?We = ([saved1], ?We\<lparr>clock_used := 2\<rparr>)"
    by (simp add: upsert_def or_now_def Date_now_def saved1_def json_eval vault_world_store)
  have l0: "\<forall>c \<in> set (JSON_stringify ?Pe (JArr [saved1])). unat c \<le> 255"
    using stringify_saved1_latin1(1) by (simp add: parse_saved_replaced(3))
  note new = saveKey_upsert [of ?k1 ?Pe ?We, THEN conjunct2, THEN conjunct2, THEN conjunct2,
      THEN conjunct2, THEN spec, THEN spec, THEN spec, THEN spec, THEN mp,
      OF conjI [OF example_key_present(1) conjI [OF example_key_present(2)
         conjI [OF example_key_present(3) conjI [OF example_key_present(4)
         conjI [OF example_key_present(5) conjI [OF g0 u0]]]]]]]
  from new l0 vault_world_store(1,2) [of None]
  have 3: "fst (saveKey ?Pe ?We ?k1) = Inr True"
    by blast
  note g = load_held_key
  note u = replace_held_key
  have l: "\<forall>c \<in> set (JSON_stringify ?P (JArr [replaced1])). unat c \<le> 255"
    using stringify_replaced1_latin1(1) by (simp add: parse_saved_replaced(3))
  note rep = saveKey_upsert [of ?k ?P ?W, THEN conjunct2, THEN conjunct2, THEN conjunct2,
      THEN conjunct2, THEN spec, THEN spec, THEN spec, THEN spec, THEN mp,
      OF conjI [OF renamed_key(1) conjI [OF renamed_key(2)
         conjI [OF renamed_key(3) conjI [OF renamed_key(4)
         conjI [OF renamed_key(5) conjI [OF g u]]]]]]]
  from rep l vault_holding_fields(1,2) [of "JArr [saved1]"]
  have 4: "fst (saveKey ?P ?W ?k) = Inr True"
    by blast
  then have run: "saveKey ?P ?W ?k = (Inr True, snd (saveKey ?P ?W ?k))"
    by (metis prod.collapse)
  let ?w2 = "?W\<lparr>clock_used := 1\<rparr>"
  from rep run obtain enc w3 where
    e: "encryptData ?w2 (JSON_stringify ?P (JArr [replaced1])) = (Inr enc, w3)"
    and w': "snd (saveKey ?P ?W ?k) = w3\<lparr>local_storage := (local_storage w3)(STORAGE_KEY \<mapsto> enc)\<rparr>"
    by blast
  have st: "\<not> storage_denied ?w2" "local_storage ?w2 ENCRYPTION_KEY = Some (js ''Kq7!'')"
    by (simp_all add: vault_holding_fields)
  have mk: "fst (getMasterKey ?w2) = Inr (js ''Kq7!'')"
    using getMasterKey_stored [OF st master_key_latin1(1)] by simp
  from rep e mk master_key_latin1(2) l
  have d: "decryptData (w3\<lparr>local_storage := (local_storage w3)(STORAGE_KEY \<mapsto> enc)\<rparr>) enc
             = (Inr (JSON_stringify ?P (JArr [replaced1])),
                w3\<lparr>local_storage := (local_storage w3)(STORAGE_KEY \<mapsto> enc)\<rparr>)"
    by blast
  then have 5: "local_storage (snd (saveKey ?P ?W ?k)) STORAGE_KEY = Some enc"
    "fst (decryptData (snd (saveKey ?P ?W ?k)) enc) = Inr ?t"
    by (simp_all add: w' parse_saved_replaced(3))
  from encryptData_stored [OF st master_key_latin1 stringify_replaced1_latin1] e
  have ne: "enc \<noteq> []" "w3 = ?w2"
    by (auto simp: parse_saved_replaced(3))
  then have "\<not> storage_denied (snd (saveKey ?P ?W ?k))"
    by (simp add: w' vault_holding_fields)
  from getAllKeys_parsed [OF this 5(1) ne(1) 5(2) parse_saved_replaced(2)]
  have 6: "fst (getAllKeys ?P (snd (saveKey ?P ?W ?k))) = Inr [replaced1]"
    by (simp add: renamed_key)
  have 7: "\<exists>enc. local_storage (snd (saveKey ?P ?W ?k)) STORAGE_KEY = Some enc
          \<and> fst (decryptData (snd (saveKey ?P ?W ?k)) enc) = Inr ?t"
    using 5 by blast
  show ?thesis
    by (intro conjI) (fact 1 2 g0 u0 3 g renamed_key(6) u 4 7 6)+
qed

subsection \<open>Texts with a code unit above 255\<close>

text \<open>
  \<open>btoa\<close> raises on a code unit above 255. When the JSON text of the list has one and
  the master key has none, the XOR text has one as well, so the \<open>btoa\<close> of the \<open>try\<close>
  block of \<open>encryptData\<close> raises, and so does the \<open>btoa(data)\<close> of its \<open>catch\<close>:
  \<open>encryptData\<close> raises and \<open>saveKey\<close> returns false on a working store, as for a key
  named with the Greek letter pi (code unit 960).
\<close>

lemma encryptData_above_255:
  assumes "\<exists>c \<in> set d. 255 < unat c"
    and "\<forall>mk. fst (getMasterKey w) = Inr mk \<longrightarrow> (\<forall>c \<in> set mk. unat c \<le> 255)"
  shows "fst (encryptData w d) = Inl InvalidCharacterError"
proof -
  obtain r w1 where g: "getMasterKey w = (r, w1)" by (cases "getMasterKey w")
  from assms(1) have plain: "btoa d = Inl InvalidCharacterError"
    by (simp add: btoa_def)
  show ?thesis
  proof (cases r)
    case (Inl e)
    with g plain show ?thesis by (simp add: encryptData_def in_world_def)
  next
    case (Inr mk)
    with g assms(2) have mk: "\<forall>c \<in> set mk. unat c \<le> 255" by simp
    have "\<exists>c \<in> set (xor_loop d mk). 255 < unat c"
    proof (rule ccontr)
      assume "\<not> (\<exists>c \<in> set (xor_loop d mk). 255 < unat c)"
      then have "\<forall>c \<in> set (xor_loop d mk). unat c \<le> 255" by (simp add: not_less)
      from xor_loop_latin1 [OF this mk] have "\<forall>c \<in> set d. unat c \<le> 255"
        by (simp add: xor_loop_involution)
      with assms(1) show False by (auto simp: not_less [symmetric])
    qed
    then have "btoa (xor_loop d mk) = Inl InvalidCharacterError"
      by (simp add: btoa_def)
    with g Inr plain show ?thesis by (simp add: encryptData_def in_world_def)
  qed
qed

lemma saveKey_above_255:
  assumes "k \<noteq> JNull" "\<not> falsy (get_prop k (js ''id''))" "\<not> falsy (get_prop k (js ''name''))"
    "\<not> falsy (get_prop k (js ''key''))" "\<not> falsy (get_prop k (js ''algorithm''))"
    and "getAllKeys P w = (Inr ks, w1)" and "upsert k ks w1 = (ks', w2)"
    and "\<exists>c \<in> set (JSON_stringify P (JArr ks')). 255 < unat c"
    and "\<forall>mk. fst (getMasterKey w2) = Inr mk \<longrightarrow> (\<forall>c \<in> set mk. unat c \<le> 255)"
  shows "fst (saveKey P w k) = Inr False"
proof -
  obtain r w3 where e: "encryptData w2 (JSON_stringify P (JArr ks')) = (r, w3)"
    by (cases "encryptData w2 (JSON_stringify P (JArr ks'))")
  from encryptData_above_255 [OF assms(8,9)] e have "r = Inl InvalidCharacterError" by simp
  with saveKey_present [OF assms(1-7) e] show ?thesis by simp
qed

lemma saveKey_refuses_pi:
  "fst (saveKey (example_platform []) (vault_world None)
         (JObj [(js ''id'', JStr (js ''1'')), (js ''name'', JStr [0x3C0]),
                (js ''key'', JStr (js ''s3cret'')), (js ''algorithm'', JStr (js ''aes''))]))
     = Inr False"
proof -
  let ?k = "JObj [(js ''id'', JStr (js ''1'')), (js ''name'', JStr [0x3C0]),
                (js ''key'', JStr (js ''s3cret'')), (js ''algorithm'', JStr (js ''aes''))]"
  let ?P = "example_platform []"
  let ?W = "vault_world None"
  obtain ks' w2 where u: "upsert ?k [] ?W = (ks', w2)" by (cases "upsert ?k [] ?W")
  have p: "?k \<noteq> JNull" "\<not> falsy (get_prop ?k (js ''id''))" "\<not> falsy (get_prop ?k (js ''name''))"
    "\<not> falsy (get_prop ?k (js ''key''))" "\<not> falsy (get_prop ?k (js ''algorithm''))"
    by (simp_all add: json_eval)
  have g: "getAllKeys ?P ?W = (Inr [], ?W)"
    by (rule getAllKeys_empty [OF vault_world_store(1) vault_world_store(4)])
  from u have ks': "ks' = [JObj [(js ''id'', JStr (js ''1'')), (js ''name'', JStr [0x3C0]),
                (js ''key'', JStr (js ''s3cret'')), (js ''algorithm'', JStr (js ''aes'')),
                (js ''created'', JNum 1000), (js ''used'', JNum 1001)]]"
    and w2: "w2 = ?W\<lparr>clock_used := 2\<rparr>"
    by (auto simp: upsert_def or_now_def Date_now_def json_eval vault_world_store)
  have t: "\<exists>c \<in> set (JSON_stringify ?P (JArr ks')). 255 < unat c"
    by (simp add: ks' example_platform_def json_eval)
  have st: "\<not> storage_denied w2" "local_storage w2 ENCRYPTION_KEY = Some (js ''Kq7!'')"
    by (simp_all add: w2 vault_world_store)
  have m: "\<forall>mk. fst (getMasterKey w2) = Inr mk \<longrightarrow> (\<forall>c \<in> set mk. unat c \<le> 255)"
    using getMasterKey_stored [OF st master_key_latin1(1)] master_key_latin1(2) by simp
  show ?thesis
    by (rule saveKey_above_255 [OF p g u t m])
qed

section \<open>\<open>importKeys\<close> on a list with a \<open>null\<close> element\<close>

lemma import_platform_parse:
  "JSON_parse import_platform (stringify import_list)
     = Inr (import_list)"
  "JSON_parse import_platform (stringify (JArr [saved7])) = Inr (JArr [saved7])"
  "JSON_stringify import_platform = stringify"
  using texts_differ
  by (simp_all only: import_platform_def example_platform_def parse_among_def platform.simps
      find.simps if_True if_False option.case refl)

text \<open>
  C7 (every element is validated on its own, a rejected element costs one message and
  never the rest of the batch, and the result counts the imported records), evaluated on
  the code: on the JSON text of a valid record, \<open>null\<close> and a second valid record,
  \<open>importKeys\<close> stores the first record under a fresh identifier, then raises in
  \<open>key.name\<close> on \<open>null\<close>; its \<open>catch\<close> returns \<open>success: false, imported: 0\<close> and the one
  message \<open>Parse error\<close>, and the second valid record is never visited: the vault holds
  the first record only.
\<close>

theorem import_null_aborts:
  "fst (importKeys import_platform (vault_world None) (stringify import_list))
     = \<lparr>import_success = False, imported = 0, import_errors = [js ''Parse error: TypeError'']\<rparr>
   \<and> fst (getAllKeys import_platform
          (snd (importKeys import_platform (vault_world None)
                  (stringify import_list))))
     = Inr [saved7]"
proof -
  let ?P = import_platform
  let ?W = "vault_world None"
  let ?k = "example_key ''7'' ''n''"
  let ?W2 = "?W\<lparr>clock_used := 1, random_ids_used := 1\<rparr>"
  let ?new = "JObj (set_prop (js ''id'') (JStr (decimal 1000 @ js ''k3j9x0q2z'')) (own_props ?k))"
  have store2: "\<not> storage_denied ?W2" "\<not> storage_full ?W2"
    "local_storage ?W2 ENCRYPTION_KEY = Some (js ''Kq7!'')" "local_storage ?W2 STORAGE_KEY = None"
    by (simp_all add: vault_world_store)
  have present: "?new \<noteq> JNull" "\<not> falsy (get_prop ?new (js ''id''))"
    "\<not> falsy (get_prop ?new (js ''name''))" "\<not> falsy (get_prop ?new (js ''key''))"
    "\<not> falsy (get_prop ?new (js ''algorithm''))"
    by (simp_all add: json_eval)
  have up: "upsert ?new [] ?W2 = ([saved7], ?W2\<lparr>clock_used := 3\<rparr>)"
    by (simp add: upsert_def or_now_def Date_now_def saved7_def json_eval vault_world_store)
  have lat: "\<forall>c \<in> set (JSON_stringify ?P (JArr [saved7])). unat c \<le> 255"
    "JSON_stringify ?P (JArr [saved7]) \<noteq> []"
    using stringify_saved7_latin1 by (simp_all add: import_platform_parse(3))
  from saveKey_stored [where P = ?P, OF present store2(1,2,3) master_key_latin1
      getAllKeys_empty [OF store2(1) store2(4)] up lat]
  obtain enc where save: "saveKey ?P ?W2 ?new
        = (Inr True, ?W2\<lparr>clock_used := 3\<rparr>\<lparr>local_storage :=
              (local_storage (?W2\<lparr>clock_used := 3\<rparr>))(STORAGE_KEY \<mapsto> enc)\<rparr>)"
    and enc: "atob enc = Inr (xor_loop (JSON_stringify ?P (JArr [saved7])) (js ''Kq7!''))" "enc \<noteq> []"
    by blast
  let ?W3 = "?W2\<lparr>clock_used := 3\<rparr>\<lparr>local_storage :=
              (local_storage (?W2\<lparr>clock_used := 3\<rparr>))(STORAGE_KEY \<mapsto> enc)\<rparr>"
  have loop: "import_loop ?P [?k, JNull, example_key ''8'' ''m''] 0 [] ?W = (Inl (TypeError, []), ?W3)"
    using save valid7
    by (simp add: Date_now_def random_id_def vault_world_store validateKeyStructure_def
        truthy_def name_message_def)
  have run: "importKeys ?P ?W (stringify import_list)
      = (\<lparr>import_success = False, imported = 0, import_errors = [js ''Parse error: TypeError'']\<rparr>, ?W3)"
    by (simp add: importKeys_def import_platform_parse import_list_def [symmetric] js_def
          del: import_loop.simps)
       (simp add: import_list_def loop js_def del: import_loop.simps)
  have store3: "\<not> storage_denied ?W3" "local_storage ?W3 ENCRYPTION_KEY = Some (js ''Kq7!'')"
    "local_storage ?W3 STORAGE_KEY = Some enc"
    by (simp_all add: vault_world_store) (simp add: STORAGE_KEY_def ENCRYPTION_KEY_def js_def)
  have "getAllKeys ?P ?W3 = (Inr (filter has_key_shape [saved7]), ?W3)"
    using enc(1) unfolding import_platform_parse(3)
    by (rule getAllKeys_stored [OF store3(1) store3(2) master_key_latin1(1) store3(3) enc(2) _
          import_platform_parse(2)])
  moreover have "has_key_shape saved7"
    by (simp add: saved7_def json_eval)
  ultimately have "fst (getAllKeys ?P ?W3) = Inr [saved7]" by simp
  with run show ?thesis by simp
qed

end
